theory Spec2Isabelle
  imports Main "HOL-Library.Sublist"
begin

section \<open>Values, exceptions and observable effects\<close>

text \<open>
  The script \<^verbatim>\<open>scripts/verify.py\<close> is modelled with explicit state passing: the
  state is the trace of what the script has done to the outside so far. A JSON
  document (the build artifact, an API payload) is a value of type \<open>json\<close>; a
  Python dictionary is an association list read with \<open>map_of\<close>, each key bound
  once. A string is the list of its characters; JSON numbers are integers (no
  claim depends on a fraction).
\<close>

datatype json =
    JNull
  | JBool bool
  | JNum int
  | JStr string
  | JArr "json list"
  | JObj "(string \<times> json) list"

type_synonym form = "(string \<times> json) list"

text \<open>Every \<^verbatim>\<open>raise\<close> and \<^verbatim>\<open>exit\<close> of the script is a value of \<open>error\<close>.\<close>

datatype error =
    Exception string
  | ValueError string
  | KeyError json
  | TypeError
  | AttributeError
  | FileNotFoundError string
  | OSError string
  | SystemExit "string option"

text \<open>
  What the script does to the outside, in order: console lines, subprocesses, HTTP
  POSTs (query parameters and form data), sleeps in seconds, and files written
  (name and content).
\<close>

datatype event =
    Print string
  | PrintErr string
  | Run "string list"
  | Post form form
  | Sleep nat
  | Write string string

type_synonym trace = "event list"

datatype file_state = Absent | Unreadable string | Text string

text \<open>
  The outside the script reads from. A file is absent, or present but raising an
  error with the given message when opened or read, or holds a text.
  \<open>stdout_of\<close> is the decoded standard output of a subprocess, \<open>json_loads\<close> the
  JSON decoder (\<open>None\<close> when the text is not JSON), \<open>http k\<close> the body of the
  answer to the \<open>k\<close>-th POST of the run (counted from 0) and \<open>timestamp\<close> the
  formatted clock reading used to name the log file. A subprocess is assumed to
  start, a POST to be answered and the log file to be writable.
\<close>

record world =
  environ :: "string \<Rightarrow> string option"
  argv :: "string list"
  files :: "string \<Rightarrow> file_state"
  stdout_of :: "string list \<Rightarrow> string"
  json_loads :: "string \<Rightarrow> json option"
  http :: "nat \<Rightarrow> string"
  timestamp :: string

text \<open>The module-level variables that \<^verbatim>\<open>verify_contract\<close> reads.\<close>

record globals =
  api_key :: string
  spell_constructor_arguments :: string
  chain_id :: string
  library_name :: string
  library_address :: string

definition module :: string where "module = ''contract''"
definition action :: string where "action = ''verifysourcecode''"
definition code_format :: string where "code_format = ''solidity-single-file''"
definition flatten_output_path :: string where "flatten_output_path = ''out/flat.sol''"

section \<open>Python operations\<close>

text \<open>\<^verbatim>\<open>str.lower\<close> on the ASCII letters; every other character is kept.\<close>

definition lower_char :: "char \<Rightarrow> char" where
  "lower_char c =
     (case map_of (zip ''ABCDEFGHIJKLMNOPQRSTUVWXYZ'' ''abcdefghijklmnopqrstuvwxyz'') c of
        Some l \<Rightarrow> l
      | None \<Rightarrow> c)"

definition lower :: "string \<Rightarrow> string" where
  "lower s = map lower_char s"

text \<open>\<^verbatim>\<open>needle in haystack\<close> on strings is \<^const>\<open>sublist\<close>.\<close>

definition contains :: "string \<Rightarrow> string \<Rightarrow> bool" where
  "contains needle haystack = sublist needle haystack"

text \<open>\<^verbatim>\<open>value[key]\<close> with a string key: only a dictionary can be indexed so.\<close>

fun getitem :: "json \<Rightarrow> string \<Rightarrow> error + json" where
  "getitem (JObj kv) k =
     (case map_of kv k of None \<Rightarrow> Inl (KeyError (JStr k)) | Some v \<Rightarrow> Inr v)"
| "getitem _ k = Inl TypeError"

fun getpath :: "json \<Rightarrow> string list \<Rightarrow> error + json" where
  "getpath j [] = Inr j"
| "getpath j (k # ks) = (case getitem j k of Inl e \<Rightarrow> Inl e | Inr v \<Rightarrow> getpath v ks)"

text \<open>\<^verbatim>\<open>'literal' + value\<close>: concatenation needs a string on the right.\<close>

fun str_add :: "string \<Rightarrow> json \<Rightarrow> error + string" where
  "str_add a (JStr s) = Inr (a @ s)"
| "str_add a _ = Inl TypeError"

fun truthy :: "json \<Rightarrow> bool" where
  "truthy JNull = False"
| "truthy (JBool b) = b"
| "truthy (JNum n) = (n \<noteq> 0)"
| "truthy (JStr s) = (s \<noteq> [])"
| "truthy (JArr xs) = (xs \<noteq> [])"
| "truthy (JObj kv) = (kv \<noteq> [])"

definition posts :: "trace \<Rightarrow> nat" where
  "posts t = length (filter (\<lambda>e. case e of Post p d \<Rightarrow> True | _ \<Rightarrow> False) t)"

section \<open>Library address (lines 70 to 96)\<close>

definition is_hex :: "char \<Rightarrow> bool" where
  "is_hex c = (c \<in> set ''0123456789abcdefABCDEF'')"

text \<open>
  \<^verbatim>\<open>re.search(r':DssExecLib:(0x[0-9a-fA-F]{40})', config)\<close>: the leftmost place where
  the literal is followed by 40 hexadecimal digits; group 1 is \<open>0x\<close> and the digits.
\<close>

definition match_here :: "string \<Rightarrow> string option" where
  "match_here s =
     (let h = take 40 (drop 14 s)
      in if prefix '':DssExecLib:0x'' s \<and> length h = 40 \<and> list_all is_hex h
         then Some (''0x'' @ h) else None)"

fun re_search :: "string \<Rightarrow> string option" where
  "re_search [] = None"
| "re_search (c # cs) =
     (case match_here (c # cs) of Some a \<Rightarrow> Some a | None \<Rightarrow> re_search cs)"

definition get_library_address :: "world \<Rightarrow> error + string" where
  "get_library_address w =
     (case files w ''foundry.toml'' of
        Absent \<Rightarrow> Inl (ValueError ''No foundry.toml found'')
      | Unreadable m \<Rightarrow> Inl (ValueError m)
      | Text config \<Rightarrow>
          (case re_search config of
             None \<Rightarrow> Inl (ValueError ''No DssExecLib configured in foundry.toml'')
           | Some a \<Rightarrow> Inr a))"

section \<open>Sending a request (lines 98 to 116)\<close>

definition send_etherscan_api_request ::
    "world \<Rightarrow> form \<Rightarrow> form \<Rightarrow> trace \<Rightarrow> trace \<times> (error + json)" where
  "send_etherscan_api_request w params data t =
     (let body = http w (posts t);
          t1 = t @ [Print ''Sending verification request...'', Post params data]
      in case json_loads w body of
           None \<Rightarrow>
             (t1 @ [PrintErr body],
              Inl (Exception ''Error: Etherscan responded with invalid JSON.''))
         | Some payload \<Rightarrow> (t1, Inr payload))"

section \<open>Metadata of the build artifact (lines 120 to 144)\<close>

record metadata =
  compiler_version :: string
  evm_version :: json
  optimizer_enabled :: json
  optimizer_runs :: json
  license_number :: int

definition load_artifact :: "world \<Rightarrow> string \<Rightarrow> error + json" where
  "load_artifact w output_path =
     (case files w output_path of
        Absent \<Rightarrow> Inl (Exception ''run forge build first'')
      | Unreadable m \<Rightarrow> Inl (OSError m)
      | Text s \<Rightarrow>
          (case json_loads w s of
             None \<Rightarrow> Inl (Exception ''run forge build again'')
           | Some content \<Rightarrow> Inr content))"

definition license_numbers :: "(string \<times> int) list" where
  "license_numbers = [(''GPL-3.0-or-later'', 5), (''AGPL-3.0-or-later'', 13)]"

text \<open>
  \<^verbatim>\<open>license_numbers[license_name]\<close>: a list or a dictionary is not hashable, any
  other value that is not a key of the table raises \<^verbatim>\<open>KeyError\<close>.
\<close>

fun license_lookup :: "json \<Rightarrow> error + int" where
  "license_lookup (JStr l) =
     (case map_of license_numbers l of None \<Rightarrow> Inl (KeyError (JStr l)) | Some n \<Rightarrow> Inr n)"
| "license_lookup (JArr xs) = Inl TypeError"
| "license_lookup (JObj kv) = Inl TypeError"
| "license_lookup k = Inl (KeyError k)"

definition extract_metadata :: "json \<Rightarrow> string \<Rightarrow> error + metadata" where
  "extract_metadata content input_path =
     (case getitem content ''metadata'' of Inl e \<Rightarrow> Inl e | Inr md \<Rightarrow>
     (case getpath md [''compiler'', ''version''] of Inl e \<Rightarrow> Inl e | Inr ver \<Rightarrow>
     (case str_add ''v'' ver of Inl e \<Rightarrow> Inl e | Inr cv \<Rightarrow>
     (case getpath md [''settings'', ''evmVersion''] of Inl e \<Rightarrow> Inl e | Inr evm \<Rightarrow>
     (case getpath md [''settings'', ''optimizer'', ''enabled''] of Inl e \<Rightarrow> Inl e | Inr en \<Rightarrow>
     (case getpath md [''settings'', ''optimizer'', ''runs''] of Inl e \<Rightarrow> Inl e | Inr runs \<Rightarrow>
     (case getpath md [''sources'', input_path, ''license''] of Inl e \<Rightarrow> Inl e | Inr lic \<Rightarrow>
     (case license_lookup lic of Inl e \<Rightarrow> Inl e | Inr num \<Rightarrow>
        Inr \<lparr>compiler_version = cv, evm_version = evm, optimizer_enabled = en,
             optimizer_runs = runs, license_number = num\<rparr>))))))))"

definition read_code :: "world \<Rightarrow> error + string" where
  "read_code w =
     (case files w flatten_output_path of
        Absent \<Rightarrow> Inl (FileNotFoundError flatten_output_path)
      | Unreadable m \<Rightarrow> Inl (OSError m)
      | Text code \<Rightarrow> Inr code)"

section \<open>The two requests (lines 146 to 166 and 196 to 201)\<close>

definition request_params :: "globals \<Rightarrow> form" where
  "request_params g = [(''chainid'', JStr (chain_id g))]"

definition request_data :: "globals \<Rightarrow> string \<Rightarrow> string \<Rightarrow> metadata \<Rightarrow> string \<Rightarrow> form" where
  "request_data g name address m code =
     [(''apikey'', JStr (api_key g)),
      (''module'', JStr module),
      (''action'', JStr action),
      (''contractaddress'', JStr address),
      (''sourceCode'', JStr code),
      (''codeFormat'', JStr code_format),
      (''contractName'', JStr name),
      (''compilerversion'', JStr (compiler_version m)),
      (''optimizationUsed'', JStr (if truthy (optimizer_enabled m) then ''1'' else ''0'')),
      (''runs'', optimizer_runs m),
      (''constructorArguements'', JStr (spell_constructor_arguments g)),
      (''evmversion'', evm_version m),
      (''licenseType'', JNum (license_number m)),
      (''libraryname1'', JStr (library_name g)),
      (''libraryaddress1'', JStr (library_address g))]"

definition check_data :: "globals \<Rightarrow> json \<Rightarrow> form" where
  "check_data g guid =
     [(''apikey'', JStr (api_key g)),
      (''module'', JStr module),
      (''action'', JStr ''checkverifystatus''),
      (''guid'', guid)]"

text \<open>
  \<^verbatim>\<open>r['status'] != '1' or r['message'] != 'OK'\<close>: the message is read only when the
  status is the string \<open>1\<close>.
\<close>

definition not_ok :: "json \<Rightarrow> error + bool" where
  "not_ok r =
     (case getitem r ''status'' of Inl e \<Rightarrow> Inl e | Inr st \<Rightarrow>
        if st \<noteq> JStr ''1'' then Inr True
        else (case getitem r ''message'' of Inl e \<Rightarrow> Inl e | Inr msg \<Rightarrow> Inr (msg \<noteq> JStr ''OK'')))"

section \<open>Submission (lines 168 to 185)\<close>

text \<open>
  The \<^verbatim>\<open>while\<close> loop of lines 170 to 174 has no bound: \<open>None\<close> is the run that
  never leaves it. The loop takes the last response and gives the first one whose
  result does not contain \<open>locate\<close>.
\<close>

partial_function (option) submit_loop ::
    "world \<Rightarrow> form \<Rightarrow> form \<Rightarrow> json \<Rightarrow> trace \<Rightarrow> (trace \<times> (error + json)) option" where
  "submit_loop w params data verify_response t =
     (case getitem verify_response ''result'' of
        Inl e \<Rightarrow> Some (t, Inl e)
      | Inr (JStr s) \<Rightarrow>
          if contains ''locate'' (lower s) then
            (case send_etherscan_api_request w params data
                    (t @ [Print s,
                          Print ''Waiting for 15 seconds for the network to update...'',
                          Sleep 15]) of
               (t', Inl e) \<Rightarrow> Some (t', Inl e)
             | (t', Inr r) \<Rightarrow> submit_loop w params data r t')
          else Some (t, Inr verify_response)
      | Inr _ \<Rightarrow> Some (t, Inl AttributeError))"

text \<open>
  Lines 176 to 185 on the response the loop ends with: \<open>Inr None\<close> is the early
  \<^verbatim>\<open>return\<close> of line 181, \<open>Inr (Some guid)\<close> goes on to the status check.
\<close>

definition submit_result :: "json \<Rightarrow> trace \<Rightarrow> trace \<times> (error + json option)" where
  "submit_result verify_response t =
     (case not_ok verify_response of
        Inl e \<Rightarrow> (t, Inl e)
      | Inr True \<Rightarrow>
          (case getitem verify_response ''result'' of Inl e \<Rightarrow> (t, Inl e) | Inr r \<Rightarrow>
          (case str_add ''Error: '' r of Inl e \<Rightarrow> (t, Inl e) | Inr line \<Rightarrow>
          (case r of
             JStr s \<Rightarrow>
               if \<not> contains ''already verified'' (lower s)
               then (t @ [Print line], Inl (Exception ''Failed to verify''))
               else (t @ [Print line], Inr None)
           | _ \<Rightarrow> (t @ [Print line], Inl AttributeError))))
      | Inr False \<Rightarrow>
          (case getitem verify_response ''result'' of Inl e \<Rightarrow> (t, Inl e) | Inr r \<Rightarrow>
          (case str_add ''Sent verification request with guid '' r of
             Inl e \<Rightarrow> (t, Inl e)
           | Inr line \<Rightarrow> (t @ [Print line], Inr (Some r)))))"

definition submit_phase ::
    "world \<Rightarrow> form \<Rightarrow> form \<Rightarrow> trace \<Rightarrow> (trace \<times> (error + json option)) option" where
  "submit_phase w params data t =
     (case send_etherscan_api_request w params data t of
        (t1, Inl e) \<Rightarrow> Some (t1, Inl e)
      | (t1, Inr r) \<Rightarrow>
          (case submit_loop w params data r t1 of
             None \<Rightarrow> None
           | Some (t2, Inl e) \<Rightarrow> Some (t2, Inl e)
           | Some (t2, Inr r') \<Rightarrow> Some (submit_result r' t2)))"

section \<open>Status check (lines 187 to 213)\<close>

text \<open>
  The loop of lines 189 to 201, unbounded as well. \<open>check_response\<close> starts as the
  empty dictionary; while it is the empty dictionary the loop asks again at once,
  without printing or sleeping.
\<close>

partial_function (option) poll_loop ::
    "world \<Rightarrow> form \<Rightarrow> form \<Rightarrow> json \<Rightarrow> trace \<Rightarrow> (trace \<times> (error + json)) option" where
  "poll_loop w params data check_response t =
     (if check_response = JObj [] then
        (case send_etherscan_api_request w params data t of
           (t', Inl e) \<Rightarrow> Some (t', Inl e)
         | (t', Inr r) \<Rightarrow> poll_loop w params data r t')
      else
        (case getitem check_response ''result'' of
           Inl e \<Rightarrow> Some (t, Inl e)
         | Inr (JStr s) \<Rightarrow>
             if contains ''pending'' (lower s) then
               (case send_etherscan_api_request w params data
                       (t @ [Print s,
                             Print ''Waiting for 15 seconds for Etherscan to process the request...'',
                             Sleep 15]) of
                  (t', Inl e) \<Rightarrow> Some (t', Inl e)
                | (t', Inr r) \<Rightarrow> poll_loop w params data r t')
             else Some (t, Inr check_response)
         | Inr _ \<Rightarrow> Some (t, Inl AttributeError)))"

definition log_name :: "world \<Rightarrow> string" where
  "log_name w = ''verify-'' @ timestamp w @ ''.log''"

text \<open>Lines 203 to 213 on the response the loop ends with.\<close>

definition poll_result :: "world \<Rightarrow> string \<Rightarrow> json \<Rightarrow> trace \<Rightarrow> trace \<times> (error + unit)" where
  "poll_result w code check_response t =
     (case not_ok check_response of
        Inl e \<Rightarrow> (t, Inl e)
      | Inr True \<Rightarrow>
          (case getitem check_response ''result'' of Inl e \<Rightarrow> (t, Inl e) | Inr r \<Rightarrow>
          (case str_add ''Error: '' r of Inl e \<Rightarrow> (t, Inl e) | Inr line \<Rightarrow>
          (case r of
             JStr s \<Rightarrow>
               if \<not> contains ''already verified'' (lower s)
               then (t @ [Print line,
                          Write (log_name w) code,
                          Print (''log written to '' @ log_name w)],
                     Inl (Exception ''Failed to get verification status''))
               else (t @ [Print line], Inr ())
           | _ \<Rightarrow> (t @ [Print line], Inl AttributeError))))
      | Inr False \<Rightarrow> (t, Inr ()))"

definition poll_phase ::
    "world \<Rightarrow> globals \<Rightarrow> string \<Rightarrow> json \<Rightarrow> trace \<Rightarrow> (trace \<times> (error + unit)) option" where
  "poll_phase w g code guid t =
     (case poll_loop w (request_params g) (check_data g guid) (JObj []) t of
        None \<Rightarrow> None
      | Some (t1, Inl e) \<Rightarrow> Some (t1, Inl e)
      | Some (t1, Inr r) \<Rightarrow> Some (poll_result w code r t1))"

section \<open>\<^verbatim>\<open>verify_contract\<close> (lines 119 to 213)\<close>

definition verify_contract ::
    "world \<Rightarrow> globals \<Rightarrow> string \<Rightarrow> string \<Rightarrow> string \<Rightarrow> string \<Rightarrow> trace
       \<Rightarrow> (trace \<times> (error + unit)) option" where
  "verify_contract w g name address input_path output_path t =
     (case load_artifact w output_path of Inl e \<Rightarrow> Some (t, Inl e) | Inr content \<Rightarrow>
     (case extract_metadata content input_path of Inl e \<Rightarrow> Some (t, Inl e) | Inr m \<Rightarrow>
     (case read_code w of Inl e \<Rightarrow> Some (t, Inl e) | Inr code \<Rightarrow>
     (case submit_phase w (request_params g) (request_data g name address m code) t of
        None \<Rightarrow> None
      | Some (t1, Inl e) \<Rightarrow> Some (t1, Inl e)
      | Some (t1, Inr None) \<Rightarrow> Some (t1, Inr ())
      | Some (t1, Inr (Some guid)) \<Rightarrow> poll_phase w g code guid t1))))"

section \<open>The script (lines 15 to 96 and 216 to 253)\<close>

definition usage :: string where
  "usage = ''usage:'' @ [CHR 0x0A, CHR 0x0A] @
     ''./verify.py <contractname> <address> [constructorArgs]'' @ [CHR 0x0A]"

definition need_api_key :: string where
  "need_api_key = ''  You need an Etherscan API key to verify contracts.'' @ [CHR 0x0A] @
     ''  Create one at https://etherscan.io/myapikey'' @ [CHR 0x0A, CHR 0x0A] @
     ''  Then export it with `export ETHERSCAN_API_KEY=xxxxxxxx'' @ [CHR 0x27, CHR 0x0A]"

definition need_rpc_url :: string where
  "need_rpc_url = ''  You need a valid ETH_RPC_URL.'' @ [CHR 0x0A] @
     ''  Get a public one one at https://chainlist.org/ or provide your own'' @ [CHR 0x0A] @
     ''  Then export it with `export ETHERSCAN_API_KEY=xxxxxxxx'' @ [CHR 0x27, CHR 0x0A]"

text \<open>
  Lines 15 to 51: credentials, argument count, address length, constructor
  arguments. The result is the key, the contract name, the address and the
  constructor arguments.
\<close>

definition load_arguments ::
    "world \<Rightarrow> trace \<times> (error + string \<times> string \<times> string \<times> string)" where
  "load_arguments w =
     (case environ w ''ETHERSCAN_API_KEY'' of
        None \<Rightarrow> ([Print need_api_key], Inl (SystemExit None))
      | Some key \<Rightarrow>
     (case environ w ''ETH_RPC_URL'' of
        None \<Rightarrow> ([Print need_rpc_url], Inl (SystemExit None))
      | Some rpc \<Rightarrow>
          if length (argv w) \<notin> {3, 4} then ([Print usage], Inl (SystemExit None))
          else
            let spell_contract_name = argv w ! 1;
                spell_contract_address = argv w ! 2;
                t = [Print (''Attempting to verify contract '' @ spell_contract_name @
                            '' at address '' @ spell_contract_address @ ''...'')]
            in if length spell_contract_address \<noteq> 42
               then (t, Inl (SystemExit (Some ''malformed address'')))
               else (t, Inr (key, spell_contract_name, spell_contract_address,
                             if length (argv w) = 4 then argv w ! 3 else ''''))))"

text \<open>Lines 53 to 96: flattening, chain id, library address.\<close>

definition cast_chain_id :: "world \<Rightarrow> string" where
  "cast_chain_id w = butlast (stdout_of w [''cast'', ''chain-id''])"

definition prepare ::
    "world \<Rightarrow> string \<Rightarrow> string \<Rightarrow> string \<Rightarrow> trace \<Rightarrow> trace \<times> (error + globals)" where
  "prepare w key address args t =
     (let t1 = t @ [Print (''DssSpell address: '' @ address),
                    Run [''forge'', ''flatten'', ''src/DssSpell.sol'', ''--output'',
                         flatten_output_path],
                    Print ''Obtaining chain ID... '',
                    Run [''cast'', ''chain-id''],
                    Print (''CHAIN_ID: '' @ cast_chain_id w)];
          g = \<lparr>api_key = key, spell_constructor_arguments = args,
               chain_id = cast_chain_id w, library_name = ''DssExecLib'',
               library_address = ''''\<rparr>
      in case get_library_address w of
           Inr a \<Rightarrow>
             (t1 @ [Print (''Using library '' @ library_name g @ '' at address '' @ a)],
              Inr (g\<lparr>library_address := a\<rparr>))
         | Inl (ValueError m) \<Rightarrow>
             (t1 @ [Print m, Print ''WARNING: Assuming this contract uses no libraries''],
              Inr g)
         | Inl e \<Rightarrow> (t1, Inl e))"

definition etherscan_subdomains :: "(string \<times> string) list" where
  "etherscan_subdomains = [(''1'', ''''), (''11155111'', ''sepolia.'')]"

definition verified_at :: "string \<Rightarrow> string \<Rightarrow> string \<Rightarrow> string" where
  "verified_at which sub address =
     which @ '' Contract verified at https://'' @ sub @ ''etherscan.io/address/'' @
     address @ ''#code''"

text \<open>Lines 221 to 253: the spell, then the action contract it points to.\<close>

definition verify_both ::
    "world \<Rightarrow> globals \<Rightarrow> string \<Rightarrow> string \<Rightarrow> trace \<Rightarrow> (trace \<times> (error + unit)) option" where
  "verify_both w g name address t =
     (case verify_contract w g name address ''src/DssSpell.sol''
             ''out/DssSpell.sol/DssSpell.json'' t of
        None \<Rightarrow> None
      | Some (t1, Inl e) \<Rightarrow> Some (t1, Inl e)
      | Some (t1, Inr u) \<Rightarrow>
          (case map_of etherscan_subdomains (chain_id g) of
             None \<Rightarrow> Some (t1, Inl (KeyError (JStr (chain_id g))))
           | Some sub \<Rightarrow>
               let call = [''cast'', ''call'', address, ''action()(address)''];
                   action_contract_address = butlast (stdout_of w call);
                   t2 = t1 @ [Print (verified_at ''Spell'' sub address),
                              Run call,
                              Print (''Spell DssAction address: '' @ action_contract_address)]
               in case verify_contract w g ''DssSpellAction'' action_contract_address
                         ''src/DssSpell.sol'' ''out/DssSpell.sol/DssSpellAction.json'' t2 of
                    None \<Rightarrow> None
                  | Some (t3, Inl e) \<Rightarrow> Some (t3, Inl e)
                  | Some (t3, Inr u) \<Rightarrow>
                      (case map_of etherscan_subdomains (chain_id g) of
                         None \<Rightarrow> Some (t3, Inl (KeyError (JStr (chain_id g))))
                       | Some sub' \<Rightarrow>
                           Some (t3 @ [Print (verified_at ''Action'' sub'
                                                action_contract_address)],
                                 Inr ()))))"

definition script :: "world \<Rightarrow> (trace \<times> (error + unit)) option" where
  "script w =
     (case load_arguments w of
        (t, Inl e) \<Rightarrow> Some (t, Inl e)
      | (t, Inr (key, name, address, args)) \<Rightarrow>
          (case prepare w key address args t of
             (t1, Inl e) \<Rightarrow> Some (t1, Inl e)
           | (t1, Inr g) \<Rightarrow> verify_both w g name address t1))"

section \<open>Responses and effects\<close>

text \<open>
  The text of a response's \<open>result\<close> field, when it has one that is a string;
  whether that text contains a word in any letter case (\<open>mentions\<close>) or is a
  text without it (\<open>settled\<close>); \<open>served w k rs\<close>: the answers to the POSTs
  number \<open>k\<close>, \<open>k + 1\<close>, ... decode to the responses \<open>rs\<close>, in this order;
  \<open>effects\<close>: a trace without its console lines.
\<close>

definition result_text :: "json \<Rightarrow> string option" where
  "result_text r = (case getitem r ''result'' of Inr (JStr s) \<Rightarrow> Some s | _ \<Rightarrow> None)"

definition mentions :: "string \<Rightarrow> json \<Rightarrow> bool" where
  "mentions needle r =
     (case result_text r of Some s \<Rightarrow> contains needle (lower s) | None \<Rightarrow> False)"

definition settled :: "string \<Rightarrow> json \<Rightarrow> bool" where
  "settled needle r =
     (case result_text r of Some s \<Rightarrow> \<not> contains needle (lower s) | None \<Rightarrow> False)"

fun served :: "world \<Rightarrow> nat \<Rightarrow> json list \<Rightarrow> bool" where
  "served w k [] = True"
| "served w k (r # rs) = (json_loads w (http w k) = Some r \<and> served w (Suc k) rs)"

definition effects :: "trace \<Rightarrow> trace" where
  "effects t = filter (\<lambda>e. case e of Print s \<Rightarrow> False | PrintErr s \<Rightarrow> False | _ \<Rightarrow> True) t"

text \<open>A finished run with the console lines left out of its trace.\<close>

definition observed :: "(trace \<times> 'a) option \<Rightarrow> (trace \<times> 'a) option" where
  "observed run = map_option (\<lambda>(t, r). (effects t, r)) run"

text \<open>
  \<open>posts_in A t\<close>: every POST of the trace is one of \<open>A\<close>; \<open>api_calls g\<close>: the
  requests that \<^verbatim>\<open>verify_contract\<close> can build from the module-level variables \<open>g\<close>.
\<close>

definition posts_in :: "(form \<times> form) set \<Rightarrow> trace \<Rightarrow> bool" where
  "posts_in A t = (\<forall>p d. Post p d \<in> set t \<longrightarrow> (p, d) \<in> A)"

definition api_calls :: "globals \<Rightarrow> (form \<times> form) set" where
  "api_calls g =
     {(p, d). p = request_params g \<and>
        ((\<exists>name address m code. d = request_data g name address m code) \<or>
         (\<exists>guid. d = check_data g guid))}"

text \<open>
  Two readings of the specification, to compare the script with: a text without
  its final newline, if it has one, and an address that looks like 42 characters
  of hexadecimal (\<open>0x\<close> and 40 digits).
\<close>

definition strip_trailing_newline :: "string \<Rightarrow> string" where
  "strip_trailing_newline s = (if s \<noteq> [] \<and> last s = CHR 0x0A then butlast s else s)"

definition hex_address :: "string \<Rightarrow> bool" where
  "hex_address a = (length a = 42 \<and> take 2 a = ''0x'' \<and> list_all is_hex (drop 2 a))"

section \<open>Sample inputs\<close>

text \<open>
  A build artifact, a decoder that knows a handful of bodies, and a world around
  them: both credentials set, the two artifacts and the flattened source present,
  no \<^verbatim>\<open>foundry.toml\<close>, chain 11155111.
\<close>

definition artifact_with_license :: "json \<Rightarrow> json" where
  "artifact_with_license lic =
     JObj [(''metadata'',
       JObj [(''compiler'', JObj [(''version'', JStr ''0.8.16+commit.07a7930e'')]),
             (''settings'',
               JObj [(''evmVersion'', JStr ''london''),
                     (''optimizer'', JObj [(''enabled'', JBool True), (''runs'', JNum 200)])]),
             (''sources'', JObj [(''src/DssSpell.sol'', JObj [(''license'', lic)])])])]"

definition sample_artifact :: json where
  "sample_artifact = artifact_with_license (JStr ''AGPL-3.0-or-later'')"

definition sample_metadata :: metadata where
  "sample_metadata =
     \<lparr>compiler_version = ''v0.8.16+commit.07a7930e'', evm_version = JStr ''london'',
      optimizer_enabled = JBool True, optimizer_runs = JNum 200, license_number = 13\<rparr>"

definition response :: "string \<Rightarrow> string \<Rightarrow> string \<Rightarrow> json" where
  "response st msg res =
     JObj [(''status'', JStr st), (''message'', JStr msg), (''result'', JStr res)]"

definition locate_response :: json where
  "locate_response = response ''0'' ''NOTOK'' ''Unable to Locate ContractCode at 0x11''"

definition sample_guid :: string where
  "sample_guid = ''ezq878u486pzijkvvmerl6a9mzwhv6''"

definition sent_response :: json where
  "sent_response = response ''1'' ''OK'' sample_guid"

definition pending_response :: json where
  "pending_response = response ''0'' ''NOTOK'' ''Pending in queue''"

definition pass_response :: json where
  "pass_response = response ''1'' ''OK'' ''Pass - Verified''"

definition fail_response :: json where
  "fail_response = response ''0'' ''NOTOK'' ''Fail - Unable to verify''"

definition already_response :: json where
  "already_response = response ''0'' ''NOTOK'' ''Contract source code Already Verified''"

definition sample_bodies :: "(string \<times> json) list" where
  "sample_bodies =
     [(''<artifact>'', sample_artifact),
      (''<locate>'', locate_response),
      (''<guid>'', sent_response),
      (''<pending>'', pending_response),
      (''<pass>'', pass_response),
      (''<fail>'', fail_response),
      (''<already>'', already_response)]"

definition sample_address :: string where
  "sample_address = ''0x1111111111111111111111111111111111111111''"

definition sample_code :: string where
  "sample_code = ''contract DssSpell {}''"

definition sample_world :: "string list \<Rightarrow> string list \<Rightarrow> world" where
  "sample_world args replies =
     \<lparr>environ = map_of [(''ETHERSCAN_API_KEY'', ''KEY''),
                         (''ETH_RPC_URL'', ''http://localhost:8545'')],
      argv = ''./verify.py'' # args,
      files = (\<lambda>path.
         if path = ''out/flat.sol'' then Text sample_code
         else if path = ''out/DssSpell.sol/DssSpell.json'' then Text ''<artifact>''
         else if path = ''out/DssSpell.sol/DssSpellAction.json'' then Text ''<artifact>''
         else Absent),
      stdout_of = (\<lambda>cmd.
         if cmd = [''cast'', ''chain-id''] then ''11155111'' @ [CHR 0x0A]
         else ''0x2222222222222222222222222222222222222222'' @ [CHR 0x0A]),
      json_loads = map_of sample_bodies,
      http = (\<lambda>k. if k < length replies then replies ! k else []),
      timestamp = ''1700000000.5''\<rparr>"

definition sample_globals :: globals where
  "sample_globals =
     \<lparr>api_key = ''KEY'', spell_constructor_arguments = ''abcd'', chain_id = ''11155111'',
      library_name = ''DssExecLib'', library_address = []\<rparr>"

definition sample_params :: form where
  "sample_params = request_params sample_globals"

definition sample_request :: form where
  "sample_request =
     request_data sample_globals ''DssSpell'' sample_address sample_metadata sample_code"

definition sample_check :: form where
  "sample_check = check_data sample_globals (JStr sample_guid)"

definition replying :: "string list \<Rightarrow> world" where
  "replying replies = sample_world [''DssSpell'', sample_address, ''abcd''] replies"

definition with_artifact :: "json \<Rightarrow> world \<Rightarrow> world" where
  "with_artifact j w = w\<lparr>json_loads := (json_loads w)(''<artifact>'' := Some j)\<rparr>"

definition with_config :: "file_state \<Rightarrow> world \<Rightarrow> world" where
  "with_config f w = w\<lparr>files := (files w)(''foundry.toml'' := f)\<rparr>"

definition with_chain_id_output :: "string \<Rightarrow> world \<Rightarrow> world" where
  "with_chain_id_output out w =
     w\<lparr>stdout_of := (stdout_of w)([''cast'', ''chain-id''] := out)\<rparr>"

definition action_request :: form where
  "action_request =
     request_data sample_globals ''DssSpellAction''
       ''0x2222222222222222222222222222222222222222'' sample_metadata sample_code"

definition sample_run :: trace where
  "sample_run =
     [Run [''forge'', ''flatten'', ''src/DssSpell.sol'', ''--output'', ''out/flat.sol''],
      Run [''cast'', ''chain-id''],
      Post sample_params sample_request,
      Post sample_params sample_check,
      Run [''cast'', ''call'', sample_address, ''action()(address)''],
      Post sample_params action_request,
      Post sample_params sample_check]"

definition four_replies :: "string list" where
  "four_replies = [''<guid>'', ''<pass>'', ''<guid>'', ''<pass>'']"

text \<open>The trace of the script when both contracts are accepted and verified at once.\<close>

definition sample_trace :: trace where
  "sample_trace =
     [Print ''Attempting to verify contract DssSpell at address 0x1111111111111111111111111111111111111111...'',
      Print ''DssSpell address: 0x1111111111111111111111111111111111111111'',
      Run [''forge'', ''flatten'', ''src/DssSpell.sol'', ''--output'', ''out/flat.sol''],
      Print ''Obtaining chain ID... '',
      Run [''cast'', ''chain-id''],
      Print ''CHAIN_ID: 11155111'',
      Print ''No foundry.toml found'',
      Print ''WARNING: Assuming this contract uses no libraries'',
      Print ''Sending verification request...'',
      Post sample_params sample_request,
      Print ''Sent verification request with guid ezq878u486pzijkvvmerl6a9mzwhv6'',
      Print ''Sending verification request...'',
      Post sample_params sample_check,
      Print ''Spell Contract verified at https://sepolia.etherscan.io/address/0x1111111111111111111111111111111111111111#code'',
      Run [''cast'', ''call'', sample_address, ''action()(address)''],
      Print ''Spell DssAction address: 0x2222222222222222222222222222222222222222'',
      Print ''Sending verification request...'',
      Post sample_params action_request,
      Print ''Sent verification request with guid ezq878u486pzijkvvmerl6a9mzwhv6'',
      Print ''Sending verification request...'',
      Post sample_params sample_check,
      Print ''Action Contract verified at https://sepolia.etherscan.io/address/0x2222222222222222222222222222222222222222#code'']"

definition odd_address :: string where
  "odd_address = ''not-a-hexadecimal-address-but-42-chars-xyz''"

declare submit_loop.simps [code] poll_loop.simps [code]

lemmas sample_defs = sample_world_def replying_def sample_bodies_def response_def
  sample_artifact_def artifact_with_license_def sample_metadata_def sample_address_def sample_globals_def
  sample_code_def sample_guid_def locate_response_def sent_response_def
  pending_response_def pass_response_def fail_response_def already_response_def
  sample_params_def sample_request_def sample_check_def

lemmas python_defs = contains_def lower_def lower_char_def sublist_Cons_right not_ok_def
  result_text_def mentions_def settled_def

section \<open>Traces of the two loops\<close>

lemma posts_simps [simp]:
  "posts [] = 0"
  "posts (Print s # t) = posts t"
  "posts (PrintErr s # t) = posts t"
  "posts (Run c # t) = posts t"
  "posts (Sleep n # t) = posts t"
  "posts (Write f x # t) = posts t"
  "posts (Post p d # t) = Suc (posts t)"
  "posts (t @ u) = posts t + posts u"
  by (simp_all add: posts_def)

lemma effects_simps [simp]:
  "effects [] = []"
  "effects (Print s # t) = effects t"
  "effects (PrintErr s # t) = effects t"
  "effects (Run c # t) = Run c # effects t"
  "effects (Sleep n # t) = Sleep n # effects t"
  "effects (Write f x # t) = Write f x # effects t"
  "effects (Post p d # t) = Post p d # effects t"
  "effects (t @ u) = effects t @ effects u"
  by (simp_all add: effects_def)

lemma posts_effects: "posts (effects t) = posts t"
  by (induction t) (auto simp: posts_def effects_def split: event.splits)

lemma posts_rounds [simp]: "posts (concat (replicate n [Sleep k, Post p d])) = n"
  by (induction n) simp_all

lemma served_append:
  "served w k (xs @ ys) = (served w k xs \<and> served w (k + length xs) ys)"
  by (induction xs arbitrary: k) auto

lemma send_served:
  "json_loads w (http w (posts t)) = Some r \<Longrightarrow>
   send_etherscan_api_request w p d t =
     (t @ [Print ''Sending verification request...'', Post p d], Inr r)"
  by (simp add: send_etherscan_api_request_def)

lemma mentionsD: "mentions n r \<Longrightarrow> \<exists>s. getitem r ''result'' = Inr (JStr s) \<and> contains n (lower s)"
  by (auto simp: mentions_def result_text_def split: sum.splits json.splits option.splits)

lemma settledD: "settled n r \<Longrightarrow> \<exists>s. getitem r ''result'' = Inr (JStr s) \<and> \<not> contains n (lower s)"
  by (auto simp: settled_def result_text_def split: sum.splits json.splits option.splits)

lemma submit_loop_run:
  "list_all (mentions ''locate'') (butlast (r # rest)) \<Longrightarrow>
   settled ''locate'' (last (r # rest)) \<Longrightarrow>
   served w (posts t) rest \<Longrightarrow>
   \<exists>new. submit_loop w p d r t = Some (t @ new, Inr (last (r # rest))) \<and>
         effects new = concat (replicate (length rest) [Sleep 15, Post p d])"
proof (induction rest arbitrary: r t)
  case Nil
  then obtain s where "getitem r ''result'' = Inr (JStr s)" "\<not> contains ''locate'' (lower s)"
    using settledD by fastforce
  then have "submit_loop w p d r t = Some (t @ [], Inr r)"
    by (subst submit_loop.simps) simp
  then show ?case by force
next
  case (Cons r' rest)
  from Cons.prems(1) obtain s where s: "getitem r ''result'' = Inr (JStr s)"
      "contains ''locate'' (lower s)"
    using mentionsD by fastforce
  let ?t1 = "t @ [Print s,
                  Print ''Waiting for 15 seconds for the network to update...'', Sleep 15]"
  let ?t2 = "?t1 @ [Print ''Sending verification request...'', Post p d]"
  have rt: "result_text r = Some s" using s by (simp add: result_text_def)
  from Cons.prems(3) have next_reply: "json_loads w (http w (posts ?t1)) = Some r'"
    and rest: "served w (posts ?t2) rest" by simp_all
  have step: "submit_loop w p d r t = submit_loop w p d r' ?t2"
    by (subst submit_loop.simps) (simp add: s rt send_served [OF next_reply])
  from Cons.prems have "list_all (mentions ''locate'') (butlast (r' # rest))"
    and "settled ''locate'' (last (r' # rest))" by simp_all
  from Cons.IH [OF this rest] obtain new where
    new: "submit_loop w p d r' ?t2 = Some (?t2 @ new, Inr (last (r' # rest)))"
      "effects new = concat (replicate (length rest) [Sleep 15, Post p d])" by blast
  let ?new = "[Print s, Print ''Waiting for 15 seconds for the network to update...'', Sleep 15,
               Print ''Sending verification request...'', Post p d] @ new"
  have "submit_loop w p d r t = Some (t @ ?new, Inr (last (r # r' # rest)))"
    using step new(1) rt by simp
  moreover have "effects ?new = concat (replicate (length (r' # rest)) [Sleep 15, Post p d])"
    using new(2) by simp
  ultimately show ?case by blast
qed


lemma mentions_not_empty: "mentions n r \<Longrightarrow> r \<noteq> JObj []"
  by (auto simp: mentions_def result_text_def)

lemma settled_not_empty: "settled n r \<Longrightarrow> r \<noteq> JObj []"
  by (auto simp: settled_def result_text_def)

lemma poll_loop_run:
  "list_all (mentions ''pending'') (butlast (r # rest)) \<Longrightarrow>
   settled ''pending'' (last (r # rest)) \<Longrightarrow>
   served w (posts t) rest \<Longrightarrow>
   \<exists>new. poll_loop w p d r t = Some (t @ new, Inr (last (r # rest))) \<and>
         effects new = concat (replicate (length rest) [Sleep 15, Post p d])"
proof (induction rest arbitrary: r t)
  case Nil
  then obtain s where "getitem r ''result'' = Inr (JStr s)" "\<not> contains ''pending'' (lower s)"
    using settledD by fastforce
  moreover from Nil have "r \<noteq> JObj []" using settled_not_empty by fastforce
  ultimately have "poll_loop w p d r t = Some (t @ [], Inr r)"
    by (subst poll_loop.simps) simp
  then show ?case by force
next
  case (Cons r' rest)
  from Cons.prems(1) obtain s where s: "getitem r ''result'' = Inr (JStr s)"
      "contains ''pending'' (lower s)"
    using mentionsD by fastforce
  from Cons.prems(1) have ne: "r \<noteq> JObj []" using mentions_not_empty by fastforce
  let ?t1 = "t @ [Print s,
                  Print ''Waiting for 15 seconds for Etherscan to process the request...'',
                  Sleep 15]"
  let ?t2 = "?t1 @ [Print ''Sending verification request...'', Post p d]"
  from Cons.prems(3) have next_reply: "json_loads w (http w (posts ?t1)) = Some r'"
    and rest: "served w (posts ?t2) rest" by simp_all
  have step: "poll_loop w p d r t = poll_loop w p d r' ?t2"
    by (subst poll_loop.simps) (simp add: s ne send_served [OF next_reply])
  from Cons.prems have "list_all (mentions ''pending'') (butlast (r' # rest))"
    and "settled ''pending'' (last (r' # rest))" by simp_all
  from Cons.IH [OF this rest] obtain new where
    new: "poll_loop w p d r' ?t2 = Some (?t2 @ new, Inr (last (r' # rest)))"
      "effects new = concat (replicate (length rest) [Sleep 15, Post p d])" by blast
  let ?new = "[Print s,
               Print ''Waiting for 15 seconds for Etherscan to process the request...'',
               Sleep 15, Print ''Sending verification request...'', Post p d] @ new"
  have "poll_loop w p d r t = Some (t @ ?new, Inr (last (r # r' # rest)))"
    using step new(1) by simp
  moreover have "effects ?new = concat (replicate (length (r' # rest)) [Sleep 15, Post p d])"
    using new(2) by simp
  ultimately show ?case by blast
qed

lemma submit_phase_run:
  assumes "served w (posts t) (locs @ [fin])"
      and "list_all (mentions ''locate'') locs"
      and "settled ''locate'' fin"
  shows "\<exists>new. submit_phase w p d t = Some (submit_result fin (t @ new)) \<and>
               effects new = Post p d # concat (replicate (length locs) [Sleep 15, Post p d])"
proof -
  obtain r rest where rs: "locs @ [fin] = r # rest" by (cases locs) auto
  then have shape: "butlast (r # rest) = locs" "last (r # rest) = fin"
    by (metis butlast_snoc, metis last_snoc)
  have len: "length rest = length locs"
    using arg_cong [OF rs, of length] by simp
  let ?t1 = "t @ [Print ''Sending verification request...'', Post p d]"
  from assms(1) rs have first: "json_loads w (http w (posts t)) = Some r"
    and rest: "served w (posts ?t1) rest" by simp_all
  from submit_loop_run [of r rest w ?t1 p d] assms(2,3) shape rest obtain new where
    new: "submit_loop w p d r ?t1 = Some (?t1 @ new, Inr fin)"
      "effects new = concat (replicate (length rest) [Sleep 15, Post p d])" by auto
  let ?new = "[Print ''Sending verification request...'', Post p d] @ new"
  have "submit_phase w p d t = Some (submit_result fin (t @ ?new))"
    by (simp add: submit_phase_def send_served [OF first] new(1))
  moreover have "effects ?new = Post p d # concat (replicate (length locs) [Sleep 15, Post p d])"
    using new(2) len by simp
  ultimately show ?thesis by blast
qed

lemma poll_phase_run:
  assumes "served w (posts t) (pend @ [fin])"
      and "list_all (mentions ''pending'') pend"
      and "settled ''pending'' fin"
  shows "\<exists>new. poll_phase w g code guid t = Some (poll_result w code fin (t @ new)) \<and>
               effects new =
                 Post (request_params g) (check_data g guid) #
                 concat (replicate (length pend)
                           [Sleep 15, Post (request_params g) (check_data g guid)])"
proof -
  let ?p = "request_params g" and ?d = "check_data g guid"
  obtain r rest where rs: "pend @ [fin] = r # rest" by (cases pend) auto
  then have shape: "butlast (r # rest) = pend" "last (r # rest) = fin"
    by (metis butlast_snoc, metis last_snoc)
  have len: "length rest = length pend"
    using arg_cong [OF rs, of length] by simp
  let ?t1 = "t @ [Print ''Sending verification request...'', Post ?p ?d]"
  from assms(1) rs have first: "json_loads w (http w (posts t)) = Some r"
    and rest: "served w (posts ?t1) rest" by simp_all
  from poll_loop_run [of r rest w ?t1 ?p ?d] assms(2,3) shape rest obtain new where
    new: "poll_loop w ?p ?d r ?t1 = Some (?t1 @ new, Inr fin)"
      "effects new = concat (replicate (length rest) [Sleep 15, Post ?p ?d])" by auto
  have start: "poll_loop w ?p ?d (JObj []) t = poll_loop w ?p ?d r ?t1"
    by (subst poll_loop.simps) (simp add: send_served [OF first])
  let ?new = "[Print ''Sending verification request...'', Post ?p ?d] @ new"
  have "poll_phase w g code guid t = Some (poll_result w code fin (t @ ?new))"
    by (simp add: poll_phase_def start new(1))
  moreover have "effects ?new = Post ?p ?d # concat (replicate (length pend) [Sleep 15, Post ?p ?d])"
    using new(2) len by simp
  ultimately show ?thesis by blast
qed

section \<open>Submission\<close>

lemma submit_result_sent:
  "not_ok fin = Inr False \<Longrightarrow> result_text fin = Some guid \<Longrightarrow>
   submit_result fin t =
     (t @ [Print (''Sent verification request with guid '' @ guid)], Inr (Some (JStr guid)))"
  by (auto simp: submit_result_def result_text_def split: sum.splits json.splits)

lemma verify_contract_submit:
  assumes "load_artifact w output_path = Inr content"
      and "extract_metadata content input_path = Inr m"
      and "read_code w = Inr code"
      and "served w (posts t) (locs @ [fin])"
      and "list_all (mentions ''locate'') locs"
      and "settled ''locate'' fin"
  shows "\<exists>new. verify_contract w g name address input_path output_path t =
               (case submit_result fin (t @ new) of
                  (t1, Inl e) \<Rightarrow> Some (t1, Inl e)
                | (t1, Inr None) \<Rightarrow> Some (t1, Inr ())
                | (t1, Inr (Some guid)) \<Rightarrow> poll_phase w g code guid t1) \<and>
             effects new =
               Post (request_params g) (request_data g name address m code) #
               concat (replicate (length locs)
                  [Sleep 15, Post (request_params g) (request_data g name address m code)])"
proof -
  from submit_phase_run [OF assms(4-6)] obtain new where
    new: "submit_phase w (request_params g) (request_data g name address m code) t =
            Some (submit_result fin (t @ new))"
      "effects new =
         Post (request_params g) (request_data g name address m code) #
         concat (replicate (length locs)
            [Sleep 15, Post (request_params g) (request_data g name address m code)])"
    by blast
  have "verify_contract w g name address input_path output_path t =
          (case submit_result fin (t @ new) of
             (t1, Inl e) \<Rightarrow> Some (t1, Inl e)
           | (t1, Inr None) \<Rightarrow> Some (t1, Inr ())
           | (t1, Inr (Some guid)) \<Rightarrow> poll_phase w g code guid t1)"
    by (simp add: verify_contract_def assms(1-3) new(1) split: prod.splits sum.splits option.splits)
  with new(2) show ?thesis by blast
qed

lemma verify_contract_sent:
  assumes "load_artifact w output_path = Inr content"
      and "extract_metadata content input_path = Inr m"
      and "read_code w = Inr code"
      and "served w (posts t) (locs @ [fin])"
      and "list_all (mentions ''locate'') locs"
      and "not_ok fin = Inr False"
      and "result_text fin = Some guid"
      and "\<not> contains ''locate'' (lower guid)"
  shows "\<exists>new. verify_contract w g name address input_path output_path t =
               poll_phase w g code (JStr guid) (t @ new) \<and>
             effects new =
               Post (request_params g) (request_data g name address m code) #
               concat (replicate (length locs)
                  [Sleep 15, Post (request_params g) (request_data g name address m code)])"
proof -
  have "settled ''locate'' fin"
    using assms(7,8) by (simp add: settled_def)
  from verify_contract_submit [OF assms(1-5) this, of g name address] obtain new where
    new: "verify_contract w g name address input_path output_path t =
            (case submit_result fin (t @ new) of
               (t1, Inl e) \<Rightarrow> Some (t1, Inl e)
             | (t1, Inr None) \<Rightarrow> Some (t1, Inr ())
             | (t1, Inr (Some guid)) \<Rightarrow> poll_phase w g code guid t1)"
      "effects new =
         Post (request_params g) (request_data g name address m code) #
         concat (replicate (length locs)
            [Sleep 15, Post (request_params g) (request_data g name address m code)])"
    by blast
  let ?new = "new @ [Print (''Sent verification request with guid '' @ guid)]"
  have "verify_contract w g name address input_path output_path t =
          poll_phase w g code (JStr guid) (t @ ?new)"
    by (simp add: new(1) submit_result_sent [OF assms(6,7)])
  moreover have "effects ?new =
      Post (request_params g) (request_data g name address m code) #
      concat (replicate (length locs)
         [Sleep 15, Post (request_params g) (request_data g name address m code)])"
    using new(2) by simp
  ultimately show ?thesis by blast
qed

text \<open>
  Claim C1. Let the build artifact and the flattened source be readable, and let
  the next answers of the API be \<open>N\<close> responses whose result contains
  \<open>locate\<close> in any letter case, followed by a clean success: status \<open>1\<close>,
  message \<open>OK\<close> and a result, the guid, that does not itself contain
  \<open>locate\<close>. Then \<^verbatim>\<open>verify_contract\<close> sends the verification request exactly
  \<open>N + 1\<close> times, sleeps 15 seconds between two consecutive submissions and does
  nothing else but print, and goes on to the status check with the guid of the
  last response.
\<close>

theorem submit_retries_until_located:
  assumes "load_artifact w output_path = Inr content"
      and "extract_metadata content input_path = Inr m"
      and "read_code w = Inr code"
      and "served w (posts t) (locs @ [fin])"
      and "list_all (mentions ''locate'') locs"
      and "not_ok fin = Inr False"
      and "result_text fin = Some guid"
      and "\<not> contains ''locate'' (lower guid)"
  shows "\<exists>new. verify_contract w g name address input_path output_path t =
               poll_phase w g code (JStr guid) (t @ new) \<and>
             effects new =
               Post (request_params g) (request_data g name address m code) #
               concat (replicate (length locs)
                  [Sleep 15, Post (request_params g) (request_data g name address m code)])"
  using assms by (rule verify_contract_sent)

lemma sample_artifact_loaded:
  "load_artifact (replying rs) ''out/DssSpell.sol/DssSpell.json'' = Inr sample_artifact"
  by (simp add: load_artifact_def replying_def sample_world_def sample_bodies_def)

lemma sample_metadata_extracted:
  "extract_metadata sample_artifact ''src/DssSpell.sol'' = Inr sample_metadata"
  by (simp add: extract_metadata_def sample_artifact_def artifact_with_license_def
      sample_metadata_def license_numbers_def)

lemma sample_code_read: "read_code (replying rs) = Inr sample_code"
  by (simp add: read_code_def flatten_output_path_def replying_def sample_world_def)

lemma sent_response_facts:
  "not_ok sent_response = Inr False" "result_text sent_response = Some sample_guid"
  "\<not> contains ''locate'' (lower sample_guid)"
  by (simp_all add: python_defs sent_response_def response_def sample_guid_def)

lemma locate_response_facts: "mentions ''locate'' locate_response"
  by (simp add: python_defs locate_response_def response_def)

lemma pending_response_facts: "mentions ''pending'' pending_response"
  by (simp add: python_defs pending_response_def response_def)

lemma fail_response_facts:
  "settled ''pending'' fail_response" "not_ok fail_response = Inr True"
  "settled ''already verified'' fail_response"
  by (simp_all add: python_defs fail_response_def response_def)

lemma already_response_facts:
  "settled ''pending'' already_response" "not_ok already_response = Inr True"
  "mentions ''already verified'' already_response" "settled ''locate'' already_response"
  by (simp_all add: python_defs already_response_def response_def)

theorem submit_retries_until_located_witness:
  "\<exists>new. verify_contract (replying [''<locate>'', ''<locate>'', ''<guid>'']) sample_globals
            ''DssSpell'' sample_address ''src/DssSpell.sol''
            ''out/DssSpell.sol/DssSpell.json'' [] =
          poll_phase (replying [''<locate>'', ''<locate>'', ''<guid>'']) sample_globals
            sample_code (JStr sample_guid) new \<and>
        effects new =
          [Post sample_params sample_request, Sleep 15,
           Post sample_params sample_request, Sleep 15,
           Post sample_params sample_request]"
proof -
  let ?w = "replying [''<locate>'', ''<locate>'', ''<guid>'']"
  have d: "served ?w (posts []) ([locate_response, locate_response] @ [sent_response])"
    by (simp add: replying_def sample_world_def sample_bodies_def)
  have e: "list_all (mentions ''locate'') [locate_response, locate_response]"
    by (simp add: python_defs locate_response_def response_def)
  have f: "not_ok sent_response = Inr False"
    by (simp add: python_defs sent_response_def response_def)
  have g: "result_text sent_response = Some sample_guid"
    by (simp add: python_defs sent_response_def response_def)
  have h: "\<not> contains ''locate'' (lower sample_guid)"
    by (simp add: python_defs sample_guid_def)
  from submit_retries_until_located
         [OF sample_artifact_loaded sample_metadata_extracted sample_code_read d e f g h,
          of sample_globals "''DssSpell''" sample_address]
  show ?thesis
    by (simp add: numeral_2_eq_2 sample_params_def sample_request_def)
qed

section \<open>Status check\<close>

lemma poll_result_verified: "not_ok fin = Inr False \<Longrightarrow> poll_result w code fin t = (t, Inr ())"
  by (simp add: poll_result_def)

lemma poll_result_already:
  "not_ok fin = Inr True \<Longrightarrow> mentions ''already verified'' fin \<Longrightarrow>
   \<exists>s. poll_result w code fin t = (t @ [Print (''Error: '' @ s)], Inr ())"
  by (auto simp: poll_result_def dest!: mentionsD)

lemma poll_result_failed:
  "not_ok fin = Inr True \<Longrightarrow> settled ''already verified'' fin \<Longrightarrow>
   \<exists>s. poll_result w code fin t =
         (t @ [Print (''Error: '' @ s), Write (log_name w) code,
               Print (''log written to '' @ log_name w)],
          Inl (Exception ''Failed to get verification status''))"
  by (auto simp: poll_result_def dest!: settledD)

lemma submit_result_already:
  "not_ok fin = Inr True \<Longrightarrow> mentions ''already verified'' fin \<Longrightarrow>
   \<exists>s. submit_result fin t = (t @ [Print (''Error: '' @ s)], Inr None)"
  by (auto simp: submit_result_def dest!: mentionsD)

text \<open>Both phases in a row: the responses to the submissions, then those to the checks.\<close>

lemma verify_contract_polled:
  assumes "load_artifact w output_path = Inr content"
      and "extract_metadata content input_path = Inr m"
      and "read_code w = Inr code"
      and "served w (posts t) (locs @ [sent] @ pend @ [fin])"
      and "list_all (mentions ''locate'') locs"
      and "not_ok sent = Inr False"
      and "result_text sent = Some guid"
      and "\<not> contains ''locate'' (lower guid)"
      and "list_all (mentions ''pending'') pend"
      and "settled ''pending'' fin"
  shows "\<exists>new. verify_contract w g name address input_path output_path t =
               Some (poll_result w code fin (t @ new)) \<and>
             effects new =
               (Post (request_params g) (request_data g name address m code) #
                concat (replicate (length locs)
                   [Sleep 15, Post (request_params g) (request_data g name address m code)])) @
               (Post (request_params g) (check_data g (JStr guid)) #
                concat (replicate (length pend)
                   [Sleep 15, Post (request_params g) (check_data g (JStr guid))]))"
proof -
  let ?p = "request_params g" and ?d = "request_data g name address m code"
  let ?c = "check_data g (JStr guid)"
  from assms(4) have s1: "served w (posts t) (locs @ [sent])"
    and s2: "served w (posts t + Suc (length locs)) (pend @ [fin])"
    using served_append [of w "posts t" "locs @ [sent]" "pend @ [fin]"] by simp_all
  from verify_contract_sent [OF assms(1-3) s1 assms(5-8), of g name address] obtain new1 where
    n1: "verify_contract w g name address input_path output_path t =
           poll_phase w g code (JStr guid) (t @ new1)"
        "effects new1 = Post ?p ?d # concat (replicate (length locs) [Sleep 15, Post ?p ?d])"
    by blast
  have "posts new1 = Suc (length locs)"
    using arg_cong [OF n1(2), of posts] by (simp add: posts_effects)
  with s2 have "served w (posts (t @ new1)) (pend @ [fin])" by simp
  from poll_phase_run [OF this assms(9,10), of g code "JStr guid"] obtain new2 where
    n2: "poll_phase w g code (JStr guid) (t @ new1) =
           Some (poll_result w code fin ((t @ new1) @ new2))"
        "effects new2 = Post ?p ?c # concat (replicate (length pend) [Sleep 15, Post ?p ?c])"
    by blast
  have "verify_contract w g name address input_path output_path t =
          Some (poll_result w code fin (t @ (new1 @ new2)))"
    using n1(1) n2(1) by simp
  moreover have "effects (new1 @ new2) =
      (Post ?p ?d # concat (replicate (length locs) [Sleep 15, Post ?p ?d])) @
      (Post ?p ?c # concat (replicate (length pend) [Sleep 15, Post ?p ?c]))"
    using n1(2) n2(2) by simp
  ultimately show ?thesis by blast
qed

text \<open>
  Claim C2. Let the next answers of the API be \<open>M\<close> responses whose result
  contains \<open>pending\<close> in any letter case, followed by a response whose result does
  not and that is either a success (status \<open>1\<close>, message \<open>OK\<close>) or, with
  another status or message, says \<open>already verified\<close>. Then the status check of
  \<^verbatim>\<open>verify_contract\<close> sends exactly \<open>M + 1\<close> queries, the first at once and each
  later one after a sleep of 15 seconds, and returns without an exception.
\<close>

theorem status_polled_until_settled:
  assumes "served w (posts t) (pend @ [fin])"
      and "list_all (mentions ''pending'') pend"
      and "settled ''pending'' fin"
      and "not_ok fin = Inr False \<or>
           (not_ok fin = Inr True \<and> mentions ''already verified'' fin)"
  shows "\<exists>new. poll_phase w g code guid t = Some (t @ new, Inr ()) \<and>
               effects new =
                 Post (request_params g) (check_data g guid) #
                 concat (replicate (length pend)
                    [Sleep 15, Post (request_params g) (check_data g guid)])"
proof -
  let ?p = "request_params g" and ?c = "check_data g guid"
  from poll_phase_run [OF assms(1-3), of g code guid] obtain new where
    new: "poll_phase w g code guid t = Some (poll_result w code fin (t @ new))"
      "effects new = Post ?p ?c # concat (replicate (length pend) [Sleep 15, Post ?p ?c])"
    by blast
  from assms(4) show ?thesis
  proof
    assume "not_ok fin = Inr False"
    then have "poll_phase w g code guid t = Some (t @ new, Inr ())"
      using new(1) by (simp add: poll_result_verified)
    with new(2) show ?thesis by blast
  next
    assume "not_ok fin = Inr True \<and> mentions ''already verified'' fin"
    then obtain s where
      "poll_result w code fin (t @ new) = ((t @ new) @ [Print (''Error: '' @ s)], Inr ())"
      using poll_result_already by blast
    then have "poll_phase w g code guid t = Some (t @ (new @ [Print (''Error: '' @ s)]), Inr ())"
      using new(1) by simp
    moreover have "effects (new @ [Print (''Error: '' @ s)]) =
        Post ?p ?c # concat (replicate (length pend) [Sleep 15, Post ?p ?c])"
      using new(2) by simp
    ultimately show ?thesis by blast
  qed
qed

theorem status_polled_until_settled_witness:
  "(\<exists>new. poll_phase (replying [''<pending>'', ''<pending>'', ''<pass>'']) sample_globals
             sample_code (JStr sample_guid) [] = Some (new, Inr ()) \<and>
          effects new = [Post sample_params sample_check, Sleep 15,
                         Post sample_params sample_check, Sleep 15,
                         Post sample_params sample_check]) \<and>
   (\<exists>new. poll_phase (replying [''<pending>'', ''<already>'']) sample_globals
             sample_code (JStr sample_guid) [] = Some (new, Inr ()) \<and>
          effects new = [Post sample_params sample_check, Sleep 15,
                         Post sample_params sample_check])"
proof -
  have pend: "mentions ''pending'' pending_response"
    by (simp add: python_defs pending_response_def response_def)
  have a1: "served (replying [''<pending>'', ''<pending>'', ''<pass>'']) (posts [])
              ([pending_response, pending_response] @ [pass_response])"
    by (simp add: replying_def sample_world_def sample_bodies_def)
  have a2: "list_all (mentions ''pending'') [pending_response, pending_response]"
    using pend by simp
  have a3: "settled ''pending'' pass_response"
    by (simp add: python_defs pass_response_def response_def)
  have a4: "not_ok pass_response = Inr False \<or>
            (not_ok pass_response = Inr True \<and> mentions ''already verified'' pass_response)"
    by (simp add: python_defs pass_response_def response_def)
  have b1: "served (replying [''<pending>'', ''<already>'']) (posts [])
              ([pending_response] @ [already_response])"
    by (simp add: replying_def sample_world_def sample_bodies_def)
  have b2: "list_all (mentions ''pending'') [pending_response]"
    using pend by simp
  have b3: "settled ''pending'' already_response"
    by (simp add: python_defs already_response_def response_def)
  have b4: "not_ok already_response = Inr False \<or>
            (not_ok already_response = Inr True \<and>
             mentions ''already verified'' already_response)"
    by (simp add: python_defs already_response_def response_def)
  from status_polled_until_settled [OF a1 a2 a3 a4, of sample_globals sample_code "JStr sample_guid"]
       status_polled_until_settled [OF b1 b2 b3 b4, of sample_globals sample_code "JStr sample_guid"]
  show ?thesis
    by (simp add: numeral_2_eq_2 sample_params_def sample_check_def)
qed

text \<open>
  Claim C3. Let a run of \<^verbatim>\<open>verify_contract\<close> reach the status check (its request
  was accepted after \<open>N\<close> retries) and let the first response of the check that is not
  pending have a status other than \<open>1\<close> or a message other than \<open>OK\<close>, and a
  result without \<open>already verified\<close>. Then the run ends by writing the file
  \<^verbatim>\<open>verify-<timestamp>.log\<close> whose content is the flattened source, the very text
  sent as \<open>sourceCode\<close> in the verification request, by printing the path of the log,
  and by raising \<^verbatim>\<open>Exception('Failed to get verification status')\<close>.
\<close>

theorem failed_check_writes_log:
  assumes "load_artifact w output_path = Inr content"
      and "extract_metadata content input_path = Inr m"
      and "read_code w = Inr code"
      and "served w (posts t) (locs @ [sent] @ pend @ [fin])"
      and "list_all (mentions ''locate'') locs"
      and "not_ok sent = Inr False"
      and "result_text sent = Some guid"
      and "\<not> contains ''locate'' (lower guid)"
      and "list_all (mentions ''pending'') pend"
      and "settled ''pending'' fin"
      and "not_ok fin = Inr True"
      and "settled ''already verified'' fin"
  shows "\<exists>new. verify_contract w g name address input_path output_path t =
               Some (t @ new @ [Write (''verify-'' @ timestamp w @ ''.log'') code,
                                Print (''log written to '' @ ''verify-'' @ timestamp w @ ''.log'')],
                     Inl (Exception ''Failed to get verification status'')) \<and>
             effects new =
               (Post (request_params g) (request_data g name address m code) #
                concat (replicate (length locs)
                   [Sleep 15, Post (request_params g) (request_data g name address m code)])) @
               (Post (request_params g) (check_data g (JStr guid)) #
                concat (replicate (length pend)
                   [Sleep 15, Post (request_params g) (check_data g (JStr guid))])) \<and>
             map_of (request_data g name address m code) ''sourceCode'' = Some (JStr code)"
proof -
  let ?p = "request_params g" and ?d = "request_data g name address m code"
  let ?c = "check_data g (JStr guid)"
  from verify_contract_polled [OF assms(1-10), of g name address] obtain new where
    new: "verify_contract w g name address input_path output_path t =
            Some (poll_result w code fin (t @ new))"
      "effects new =
         (Post ?p ?d # concat (replicate (length locs) [Sleep 15, Post ?p ?d])) @
         (Post ?p ?c # concat (replicate (length pend) [Sleep 15, Post ?p ?c]))"
    by blast
  from poll_result_failed [OF assms(11,12)] obtain s where
    "poll_result w code fin (t @ new) =
       ((t @ new) @ [Print (''Error: '' @ s), Write (log_name w) code,
                     Print (''log written to '' @ log_name w)],
        Inl (Exception ''Failed to get verification status''))"
    by blast
  then have "verify_contract w g name address input_path output_path t =
      Some (t @ (new @ [Print (''Error: '' @ s)]) @
              [Write (''verify-'' @ timestamp w @ ''.log'') code,
               Print (''log written to '' @ ''verify-'' @ timestamp w @ ''.log'')],
            Inl (Exception ''Failed to get verification status''))"
    using new(1) by (simp add: log_name_def)
  moreover have "effects (new @ [Print (''Error: '' @ s)]) =
      (Post ?p ?d # concat (replicate (length locs) [Sleep 15, Post ?p ?d])) @
      (Post ?p ?c # concat (replicate (length pend) [Sleep 15, Post ?p ?c]))"
    using new(2) by simp
  moreover have "map_of ?d ''sourceCode'' = Some (JStr code)"
    by (simp add: request_data_def)
  ultimately show ?thesis by blast
qed

theorem failed_check_writes_log_witness:
  "\<exists>new. verify_contract (replying [''<locate>'', ''<guid>'', ''<pending>'', ''<fail>''])
            sample_globals ''DssSpell'' sample_address ''src/DssSpell.sol''
            ''out/DssSpell.sol/DssSpell.json'' [] =
          Some (new @ [Write ''verify-1700000000.5.log'' sample_code,
                       Print ''log written to verify-1700000000.5.log''],
                Inl (Exception ''Failed to get verification status'')) \<and>
        effects new =
          [Post sample_params sample_request, Sleep 15, Post sample_params sample_request,
           Post sample_params sample_check, Sleep 15, Post sample_params sample_check] \<and>
        map_of sample_request ''sourceCode'' = Some (JStr sample_code)"
proof -
  let ?w = "replying [''<locate>'', ''<guid>'', ''<pending>'', ''<fail>'']"
  have d: "served ?w (posts [])
             ([locate_response] @ [sent_response] @ [pending_response] @ [fail_response])"
    by (simp add: replying_def sample_world_def sample_bodies_def)
  have e: "list_all (mentions ''locate'') [locate_response]"
    using locate_response_facts by simp
  have i: "list_all (mentions ''pending'') [pending_response]"
    using pending_response_facts by simp
  have ts: "timestamp ?w = ''1700000000.5''"
    by (simp add: replying_def sample_world_def)
  from failed_check_writes_log
         [OF sample_artifact_loaded sample_metadata_extracted sample_code_read d e
             sent_response_facts i fail_response_facts,
          of sample_globals "''DssSpell''" sample_address]
  show ?thesis
    by (simp add: ts sample_params_def sample_request_def sample_check_def)
qed

section \<open>Already verified\<close>

text \<open>
  Claim C4. Let the response that ends the submission loop, or the one that ends the
  status loop, have a status other than \<open>1\<close> or a message other than \<open>OK\<close>
  and a result that contains \<open>already verified\<close> in any letter case. Then
  \<^verbatim>\<open>verify_contract\<close> returns normally, and apart from printing it has only sent
  requests and slept: no log file is written.
\<close>

theorem already_verified_returns_normally:
  assumes "load_artifact w output_path = Inr content"
      and "extract_metadata content input_path = Inr m"
      and "read_code w = Inr code"
      and "list_all (mentions ''locate'') locs"
      and "not_ok fin = Inr True"
      and "mentions ''already verified'' fin"
  shows "(served w (posts t) (locs @ [fin]) \<and> settled ''locate'' fin \<longrightarrow>
          (\<exists>new. verify_contract w g name address input_path output_path t =
                   Some (t @ new, Inr ()) \<and>
                 effects new =
                   Post (request_params g) (request_data g name address m code) #
                   concat (replicate (length locs)
                      [Sleep 15, Post (request_params g) (request_data g name address m code)]))) \<and>
         (served w (posts t) (locs @ [sent] @ pend @ [fin]) \<and>
          not_ok sent = Inr False \<and> result_text sent = Some guid \<and>
          \<not> contains ''locate'' (lower guid) \<and>
          list_all (mentions ''pending'') pend \<and> settled ''pending'' fin \<longrightarrow>
          (\<exists>new. verify_contract w g name address input_path output_path t =
                   Some (t @ new, Inr ()) \<and>
                 effects new =
                   (Post (request_params g) (request_data g name address m code) #
                    concat (replicate (length locs)
                       [Sleep 15, Post (request_params g) (request_data g name address m code)])) @
                   (Post (request_params g) (check_data g (JStr guid)) #
                    concat (replicate (length pend)
                       [Sleep 15, Post (request_params g) (check_data g (JStr guid))]))))"
proof (intro conjI impI; elim conjE)
  let ?p = "request_params g" and ?d = "request_data g name address m code"
  assume "served w (posts t) (locs @ [fin])" and "settled ''locate'' fin"
  from verify_contract_submit [OF assms(1-3) this(1) assms(4) this(2), of g name address]
  obtain new where
    new: "verify_contract w g name address input_path output_path t =
            (case submit_result fin (t @ new) of
               (t1, Inl e) \<Rightarrow> Some (t1, Inl e)
             | (t1, Inr None) \<Rightarrow> Some (t1, Inr ())
             | (t1, Inr (Some guid)) \<Rightarrow> poll_phase w g code guid t1)"
      "effects new = Post ?p ?d # concat (replicate (length locs) [Sleep 15, Post ?p ?d])"
    by blast
  from submit_result_already [OF assms(5,6)] obtain s where
    "submit_result fin (t @ new) = ((t @ new) @ [Print (''Error: '' @ s)], Inr None)"
    by blast
  then have "verify_contract w g name address input_path output_path t =
      Some (t @ (new @ [Print (''Error: '' @ s)]), Inr ())"
    using new(1) by simp
  moreover have "effects (new @ [Print (''Error: '' @ s)]) =
      Post ?p ?d # concat (replicate (length locs) [Sleep 15, Post ?p ?d])"
    using new(2) by simp
  ultimately show "\<exists>new. verify_contract w g name address input_path output_path t =
                       Some (t @ new, Inr ()) \<and>
                     effects new =
                       Post ?p ?d # concat (replicate (length locs) [Sleep 15, Post ?p ?d])"
    by blast
next
  let ?p = "request_params g" and ?d = "request_data g name address m code"
  let ?c = "check_data g (JStr guid)"
  assume "served w (posts t) (locs @ [sent] @ pend @ [fin])"
    and "not_ok sent = Inr False" and "result_text sent = Some guid"
    and "\<not> contains ''locate'' (lower guid)"
    and "list_all (mentions ''pending'') pend" and "settled ''pending'' fin"
  from verify_contract_polled [OF assms(1-3) this(1) assms(4) this(2-6), of g name address]
  obtain new where
    new: "verify_contract w g name address input_path output_path t =
            Some (poll_result w code fin (t @ new))"
      "effects new =
         (Post ?p ?d # concat (replicate (length locs) [Sleep 15, Post ?p ?d])) @
         (Post ?p ?c # concat (replicate (length pend) [Sleep 15, Post ?p ?c]))"
    by blast
  from poll_result_already [OF assms(5,6)] obtain s where
    "poll_result w code fin (t @ new) = ((t @ new) @ [Print (''Error: '' @ s)], Inr ())"
    by blast
  then have "verify_contract w g name address input_path output_path t =
      Some (t @ (new @ [Print (''Error: '' @ s)]), Inr ())"
    using new(1) by simp
  moreover have "effects (new @ [Print (''Error: '' @ s)]) =
      (Post ?p ?d # concat (replicate (length locs) [Sleep 15, Post ?p ?d])) @
      (Post ?p ?c # concat (replicate (length pend) [Sleep 15, Post ?p ?c]))"
    using new(2) by simp
  ultimately show "\<exists>new. verify_contract w g name address input_path output_path t =
                       Some (t @ new, Inr ()) \<and>
                     effects new =
                       (Post ?p ?d # concat (replicate (length locs) [Sleep 15, Post ?p ?d])) @
                       (Post ?p ?c # concat (replicate (length pend) [Sleep 15, Post ?p ?c]))"
    by blast
qed

theorem already_verified_returns_normally_witness:
  "(\<exists>new. verify_contract (replying [''<locate>'', ''<already>'']) sample_globals
             ''DssSpell'' sample_address ''src/DssSpell.sol''
             ''out/DssSpell.sol/DssSpell.json'' [] = Some (new, Inr ()) \<and>
          effects new =
            [Post sample_params sample_request, Sleep 15,
             Post sample_params sample_request]) \<and>
   (\<exists>new. verify_contract (replying [''<locate>'', ''<guid>'', ''<pending>'', ''<already>''])
             sample_globals ''DssSpell'' sample_address ''src/DssSpell.sol''
             ''out/DssSpell.sol/DssSpell.json'' [] = Some (new, Inr ()) \<and>
          effects new =
            [Post sample_params sample_request, Sleep 15, Post sample_params sample_request,
             Post sample_params sample_check, Sleep 15, Post sample_params sample_check])"
proof -
  let ?w1 = "replying [''<locate>'', ''<already>'']"
  let ?w2 = "replying [''<locate>'', ''<guid>'', ''<pending>'', ''<already>'']"
  have locs: "list_all (mentions ''locate'') [locate_response]"
    using locate_response_facts by simp
  have pend: "list_all (mentions ''pending'') [pending_response]"
    using pending_response_facts by simp
  have s1: "served ?w1 (posts []) ([locate_response] @ [already_response])"
    by (simp add: replying_def sample_world_def sample_bodies_def)
  have s2: "served ?w2 (posts [])
              ([locate_response] @ [sent_response] @ [pending_response] @ [already_response])"
    by (simp add: replying_def sample_world_def sample_bodies_def)
  note first = already_verified_returns_normally
         [OF sample_artifact_loaded sample_metadata_extracted sample_code_read locs
             already_response_facts(2,3),
          of "[''<locate>'', ''<already>'']" "[]" sample_globals "''DssSpell''" sample_address,
          THEN conjunct1, rule_format, OF conjI, OF s1 already_response_facts(4)]
  note second = already_verified_returns_normally
         [OF sample_artifact_loaded sample_metadata_extracted sample_code_read locs
             already_response_facts(2,3),
          of "[''<locate>'', ''<guid>'', ''<pending>'', ''<already>'']" "[]" _ _ _
             sent_response "[pending_response]" sample_guid,
          THEN conjunct2, rule_format, of sample_globals "''DssSpell''" sample_address]
  from first second s2 sent_response_facts pend already_response_facts(1)
  show ?thesis
    by (simp add: sample_params_def sample_request_def sample_check_def)
qed

section \<open>License code\<close>

text \<open>
  Claim C5. For every build artifact whose other fields can be read and whose
  license is the string \<open>l\<close>, the extraction gives the license code 5 when
  \<open>l\<close> is \<open>GPL-3.0-or-later\<close> and 13 when it is \<open>AGPL-3.0-or-later\<close>; for
  any other string the lookup raises \<^verbatim>\<open>KeyError\<close>, and \<^verbatim>\<open>verify_contract\<close> ends
  with that error before it has done anything.
\<close>

theorem license_code_extracted:
  assumes "getitem content ''metadata'' = Inr md"
      and "getpath md [''compiler'', ''version''] = Inr (JStr ver)"
      and "getpath md [''settings'', ''evmVersion''] = Inr evm"
      and "getpath md [''settings'', ''optimizer'', ''enabled''] = Inr en"
      and "getpath md [''settings'', ''optimizer'', ''runs''] = Inr runs"
      and "getpath md [''sources'', input_path, ''license''] = Inr (JStr l)"
  shows "extract_metadata content input_path =
           (if l = ''GPL-3.0-or-later'' then
              Inr \<lparr>compiler_version = ''v'' @ ver, evm_version = evm, optimizer_enabled = en,
                   optimizer_runs = runs, license_number = 5\<rparr>
            else if l = ''AGPL-3.0-or-later'' then
              Inr \<lparr>compiler_version = ''v'' @ ver, evm_version = evm, optimizer_enabled = en,
                   optimizer_runs = runs, license_number = 13\<rparr>
            else Inl (KeyError (JStr l))) \<and>
         (load_artifact w output_path = Inr content \<and>
          l \<noteq> ''GPL-3.0-or-later'' \<and> l \<noteq> ''AGPL-3.0-or-later'' \<longrightarrow>
          verify_contract w g name address input_path output_path t =
            Some (t, Inl (KeyError (JStr l))))"
proof -
  have look: "license_lookup (JStr l) =
      (if l = ''GPL-3.0-or-later'' then Inr 5
       else if l = ''AGPL-3.0-or-later'' then Inr 13 else Inl (KeyError (JStr l)))"
    by (simp add: license_numbers_def)
  have ex: "extract_metadata content input_path =
      (case license_lookup (JStr l) of Inl e \<Rightarrow> Inl e
       | Inr num \<Rightarrow> Inr \<lparr>compiler_version = ''v'' @ ver, evm_version = evm,
            optimizer_enabled = en, optimizer_runs = runs, license_number = num\<rparr>)"
    by (simp add: extract_metadata_def assms del: getpath.simps split: option.splits)
  have res: "extract_metadata content input_path =
      (if l = ''GPL-3.0-or-later'' then
         Inr \<lparr>compiler_version = ''v'' @ ver, evm_version = evm, optimizer_enabled = en,
              optimizer_runs = runs, license_number = 5\<rparr>
       else if l = ''AGPL-3.0-or-later'' then
         Inr \<lparr>compiler_version = ''v'' @ ver, evm_version = evm, optimizer_enabled = en,
              optimizer_runs = runs, license_number = 13\<rparr>
       else Inl (KeyError (JStr l)))"
    unfolding ex look by simp
  moreover have "verify_contract w g name address input_path output_path t =
      Some (t, Inl (KeyError (JStr l)))"
    if "load_artifact w output_path = Inr content"
      and "l \<noteq> ''GPL-3.0-or-later''" and "l \<noteq> ''AGPL-3.0-or-later''"
    using that by (simp add: verify_contract_def res)
  ultimately show ?thesis by blast
qed

theorem license_code_extracted_witness:
  "extract_metadata (artifact_with_license (JStr ''GPL-3.0-or-later'')) ''src/DssSpell.sol'' =
     Inr (sample_metadata\<lparr>license_number := 5\<rparr>) \<and>
   extract_metadata (artifact_with_license (JStr ''AGPL-3.0-or-later'')) ''src/DssSpell.sol'' =
     Inr sample_metadata \<and>
   extract_metadata (artifact_with_license (JStr ''MIT'')) ''src/DssSpell.sol'' =
     Inl (KeyError (JStr ''MIT'')) \<and>
   verify_contract (with_artifact (artifact_with_license (JStr ''MIT'')) (replying []))
     sample_globals ''DssSpell'' sample_address ''src/DssSpell.sol''
     ''out/DssSpell.sol/DssSpell.json'' [] = Some ([], Inl (KeyError (JStr ''MIT'')))"
proof -
  let ?md = "\<lambda>l. JObj [(''compiler'', JObj [(''version'', JStr ''0.8.16+commit.07a7930e'')]),
             (''settings'',
               JObj [(''evmVersion'', JStr ''london''),
                     (''optimizer'', JObj [(''enabled'', JBool True), (''runs'', JNum 200)])]),
             (''sources'', JObj [(''src/DssSpell.sol'', JObj [(''license'', JStr l)])])]"
  have a: "getitem (artifact_with_license (JStr l)) ''metadata'' = Inr (?md l)"
    and b: "getpath (?md l) [''compiler'', ''version''] = Inr (JStr ''0.8.16+commit.07a7930e'')"
    and c: "getpath (?md l) [''settings'', ''evmVersion''] = Inr (JStr ''london'')"
    and d: "getpath (?md l) [''settings'', ''optimizer'', ''enabled''] = Inr (JBool True)"
    and e: "getpath (?md l) [''settings'', ''optimizer'', ''runs''] = Inr (JNum 200)"
    and f: "getpath (?md l) [''sources'', ''src/DssSpell.sol'', ''license''] = Inr (JStr l)"
    for l
    by (simp_all add: artifact_with_license_def)
  have g: "load_artifact (with_artifact (artifact_with_license (JStr ''MIT'')) (replying []))
             ''out/DssSpell.sol/DssSpell.json'' = Inr (artifact_with_license (JStr ''MIT''))"
    by (simp add: load_artifact_def with_artifact_def replying_def sample_world_def)
  from license_code_extracted [OF a b c d e f, of "''GPL-3.0-or-later''"]
       license_code_extracted [OF a b c d e f, of "''AGPL-3.0-or-later''"]
       license_code_extracted [OF a b c d e f, of "''MIT''" 
          "with_artifact (artifact_with_license (JStr ''MIT'')) (replying [])"
          "''out/DssSpell.sol/DssSpell.json''" sample_globals "''DssSpell''" sample_address "[]"]
       g
  show ?thesis by (simp add: sample_metadata_def)
qed

section \<open>Address length\<close>

text \<open>
  Claim C6. With both credentials set and two or three arguments given, an address
  argument whose length is not 42 makes the script exit with
  \<open>malformed address\<close>; all it has done by then is print one line: no request
  was sent and no subprocess was run.
\<close>

theorem malformed_address_exits:
  assumes "environ w ''ETHERSCAN_API_KEY'' = Some key"
      and "environ w ''ETH_RPC_URL'' = Some rpc"
      and "length (argv w) \<in> {3, 4}"
      and "length (argv w ! 2) \<noteq> 42"
  shows "script w =
           Some ([Print (''Attempting to verify contract '' @ argv w ! 1 @ '' at address '' @
                         argv w ! 2 @ ''...'')],
                 Inl (SystemExit (Some ''malformed address'')))"
  using assms by (simp add: script_def load_arguments_def Let_def)

theorem malformed_address_exits_witness:
  "script (sample_world [''DssSpell'', ''0x1234''] []) =
     Some ([Print ''Attempting to verify contract DssSpell at address 0x1234...''],
           Inl (SystemExit (Some ''malformed address'')))"
proof -
  let ?w = "sample_world [''DssSpell'', ''0x1234''] []"
  have a: "environ ?w ''ETHERSCAN_API_KEY'' = Some ''KEY''"
    and b: "environ ?w ''ETH_RPC_URL'' = Some ''http://localhost:8545''"
    and c: "length (argv ?w) \<in> {3, 4}"
    and d: "length (argv ?w ! 2) \<noteq> 42"
    by (simp_all add: sample_world_def)
  from malformed_address_exits [OF a b c d] show ?thesis
    by (simp add: sample_world_def)
qed

section \<open>The requests of a whole run\<close>

lemma posts_in_simps [simp]:
  "posts_in A []"
  "posts_in A (Print s # t) = posts_in A t"
  "posts_in A (PrintErr s # t) = posts_in A t"
  "posts_in A (Run c # t) = posts_in A t"
  "posts_in A (Sleep n # t) = posts_in A t"
  "posts_in A (Write f x # t) = posts_in A t"
  "posts_in A (Post p d # t) = ((p, d) \<in> A \<and> posts_in A t)"
  "posts_in A (t @ u) = (posts_in A t \<and> posts_in A u)"
  by (auto simp: posts_in_def)

lemma send_posts_in [simp]:
  "posts_in A (fst (send_etherscan_api_request w p d t)) = (posts_in A t \<and> (p, d) \<in> A)"
  by (auto simp: send_etherscan_api_request_def Let_def split: option.splits)

lemma continue_posts_in:
  assumes "(case x of (t', Inl e) \<Rightarrow> Some (t', Inl e) | (t', Inr r) \<Rightarrow> k r t') = Some y"
      and "posts_in A (fst x)"
      and "\<And>r t'. k r t' = Some y \<Longrightarrow> posts_in A t' \<Longrightarrow> posts_in A (fst y)"
  shows "posts_in A (fst y)"
  using assms by (auto split: prod.splits sum.splits)

lemma submit_loop_posts_in:
  assumes "submit_loop w p d r t = Some y"
  shows "posts_in A t \<longrightarrow> (p, d) \<in> A \<longrightarrow> posts_in A (fst y)"
proof (rule submit_loop.raw_induct
    [where P = "\<lambda>w p d r t y. posts_in A t \<longrightarrow> (p, d) \<in> A \<longrightarrow> posts_in A (fst y)", OF _ assms])
  fix loop w p d r t y
  assume IH: "\<And>w p d r t y. loop w p d r t = Some y \<Longrightarrow>
                posts_in A t \<longrightarrow> (p, d) \<in> A \<longrightarrow> posts_in A (fst y)"
    and body: "(case getitem r ''result'' of
        Inl e \<Rightarrow> Some (t, Inl e)
      | Inr (JStr s) \<Rightarrow>
          if contains ''locate'' (lower s) then
            (case send_etherscan_api_request w p d
                    (t @ [Print s,
                          Print ''Waiting for 15 seconds for the network to update...'',
                          Sleep 15]) of
               (t', Inl e) \<Rightarrow> Some (t', Inl e)
             | (t', Inr r) \<Rightarrow> loop w p d r t')
          else Some (t, Inr r)
      | Inr _ \<Rightarrow> Some (t, Inl AttributeError)) = Some y"
  show "posts_in A t \<longrightarrow> (p, d) \<in> A \<longrightarrow> posts_in A (fst y)"
  proof (intro impI)
    assume A: "posts_in A t" "(p, d) \<in> A"
    from body A show "posts_in A (fst y)"
      by (auto split: sum.splits json.splits if_splits
          elim!: continue_posts_in [where A = A] dest: IH)
  qed
qed

lemma poll_loop_posts_in:
  assumes "poll_loop w p d r t = Some y"
  shows "posts_in A t \<longrightarrow> (p, d) \<in> A \<longrightarrow> posts_in A (fst y)"
proof (rule poll_loop.raw_induct
    [where P = "\<lambda>w p d r t y. posts_in A t \<longrightarrow> (p, d) \<in> A \<longrightarrow> posts_in A (fst y)", OF _ assms])
  fix loop w p d r t y
  assume IH: "\<And>w p d r t y. loop w p d r t = Some y \<Longrightarrow>
                posts_in A t \<longrightarrow> (p, d) \<in> A \<longrightarrow> posts_in A (fst y)"
    and body: "(if r = JObj [] then
        (case send_etherscan_api_request w p d t of
           (t', Inl e) \<Rightarrow> Some (t', Inl e)
         | (t', Inr r) \<Rightarrow> loop w p d r t')
      else
        (case getitem r ''result'' of
           Inl e \<Rightarrow> Some (t, Inl e)
         | Inr (JStr s) \<Rightarrow>
             if contains ''pending'' (lower s) then
               (case send_etherscan_api_request w p d
                       (t @ [Print s,
                             Print ''Waiting for 15 seconds for Etherscan to process the request...'',
                             Sleep 15]) of
                  (t', Inl e) \<Rightarrow> Some (t', Inl e)
                | (t', Inr r) \<Rightarrow> loop w p d r t')
             else Some (t, Inr r)
         | Inr _ \<Rightarrow> Some (t, Inl AttributeError))) = Some y"
  show "posts_in A t \<longrightarrow> (p, d) \<in> A \<longrightarrow> posts_in A (fst y)"
  proof (intro impI)
    assume A: "posts_in A t" "(p, d) \<in> A"
    from body A show "posts_in A (fst y)"
      by (auto split: sum.splits json.splits if_splits
          elim!: continue_posts_in [where A = A] dest: IH)
  qed
qed

lemma submit_result_posts_in [simp]:
  "posts_in A (fst (submit_result r t)) = posts_in A t"
  by (auto simp: submit_result_def split: sum.splits json.splits bool.splits)

lemma poll_result_posts_in [simp]:
  "posts_in A (fst (poll_result w code r t)) = posts_in A t"
  by (auto simp: poll_result_def split: sum.splits json.splits bool.splits)

lemma submit_phase_posts_in:
  assumes "submit_phase w p d t = Some y" and "posts_in A t" and "(p, d) \<in> A"
  shows "posts_in A (fst y)"
proof -
  obtain t1 r1 where send: "send_etherscan_api_request w p d t = (t1, r1)"
    by (cases "send_etherscan_api_request w p d t")
  with assms(2,3) have t1: "posts_in A t1"
    using send_posts_in [of A w p d t] by simp
  show ?thesis
  proof (cases r1)
    case (Inl e)
    with assms(1) send t1 show ?thesis by (auto simp: submit_phase_def)
  next
    case (Inr r)
    with assms(1) send obtain t2 r2 where
      loop: "submit_loop w p d r t1 = Some (t2, r2)"
      and y: "y = (case r2 of Inl e \<Rightarrow> (t2, Inl e) | Inr r' \<Rightarrow> submit_result r' t2)"
      by (auto simp: submit_phase_def split: option.splits sum.splits)
    from submit_loop_posts_in [OF loop, of A] t1 assms(3) have "posts_in A t2" by simp
    with y show ?thesis by (cases r2) simp_all
  qed
qed

lemma poll_phase_posts_in:
  assumes "poll_phase w g code guid t = Some y" and "posts_in A t"
      and "(request_params g, check_data g guid) \<in> A"
  shows "posts_in A (fst y)"
proof -
  from assms(1) obtain t1 r1 where
    loop: "poll_loop w (request_params g) (check_data g guid) (JObj []) t = Some (t1, r1)"
    and y: "y = (case r1 of Inl e \<Rightarrow> (t1, Inl e) | Inr r \<Rightarrow> poll_result w code r t1)"
    by (auto simp: poll_phase_def split: option.splits sum.splits)
  from poll_loop_posts_in [OF loop, of A] assms(2,3) have "posts_in A t1" by simp
  with y show ?thesis by (cases r1) simp_all
qed

lemma verify_contract_posts_in:
  assumes "verify_contract w g name address input_path output_path t = Some y"
      and "posts_in (api_calls g) t"
  shows "posts_in (api_calls g) (fst y)"
proof (cases "load_artifact w output_path")
  case (Inl e)
  with assms show ?thesis by (auto simp: verify_contract_def)
next
  case content: (Inr content)
  show ?thesis
  proof (cases "extract_metadata content input_path")
    case (Inl e)
    with assms content show ?thesis by (auto simp: verify_contract_def)
  next
    case m: (Inr m)
    show ?thesis
    proof (cases "read_code w")
      case (Inl e)
      with assms content m show ?thesis by (auto simp: verify_contract_def)
    next
      case code: (Inr code)
      let ?d = "request_data g name address m code"
      have d: "(request_params g, ?d) \<in> api_calls g"
        by (auto simp: api_calls_def)
      from assms(1) content m code obtain t1 r1 where
        sub: "submit_phase w (request_params g) ?d t = Some (t1, r1)"
        and y: "(case r1 of Inl e \<Rightarrow> Some (t1, Inl e) | Inr None \<Rightarrow> Some (t1, Inr ())
                 | Inr (Some guid) \<Rightarrow> poll_phase w g code guid t1) = Some y"
        by (auto simp: verify_contract_def split: option.splits sum.splits)
      from submit_phase_posts_in [OF sub assms(2) d] have t1: "posts_in (api_calls g) t1"
        by simp
      show ?thesis
      proof (cases r1)
        case (Inl e)
        with y t1 show ?thesis by auto
      next
        case (Inr og)
        show ?thesis
        proof (cases og)
          case None
          with y t1 Inr show ?thesis by auto
        next
          case (Some guid)
          with y Inr have poll: "poll_phase w g code guid t1 = Some y" by simp
          have "(request_params g, check_data g guid) \<in> api_calls g"
            by (auto simp: api_calls_def)
          with poll t1 show ?thesis by (rule poll_phase_posts_in)
        qed
      qed
    qed
  qed
qed


lemma prepare_globals:
  "prepare w key address args t = (t', Inr g) \<Longrightarrow>
   chain_id g = cast_chain_id w \<and> spell_constructor_arguments g = args \<and>
   library_name g = ''DssExecLib'' \<and> posts_in A t' = posts_in A t"
  by (auto simp: prepare_def Let_def split: sum.splits error.splits)

lemma verify_both_posts_in:
  assumes "verify_both w g name address t = Some y"
      and "posts_in (api_calls g) t"
  shows "posts_in (api_calls g) (fst y)"
proof -
  from assms(1) obtain t1 r1 where
    first: "verify_contract w g name address ''src/DssSpell.sol''
              ''out/DssSpell.sol/DssSpell.json'' t = Some (t1, r1)"
    by (auto simp: verify_both_def split: option.splits)
  from verify_contract_posts_in [OF first assms(2)] have t1: "posts_in (api_calls g) t1"
    by simp
  show ?thesis
  proof (cases "\<exists>sub. r1 = Inr () \<and> map_of etherscan_subdomains (chain_id g) = Some sub")
    case False
    with assms(1) first t1 show ?thesis
      by (auto simp: verify_both_def split: sum.splits option.splits)
  next
    case True
    then obtain sub where sub: "r1 = Inr ()" "map_of etherscan_subdomains (chain_id g) = Some sub"
      by blast
    let ?call = "[''cast'', ''call'', address, ''action()(address)'']"
    let ?a = "butlast (stdout_of w ?call)"
    let ?t2 = "t1 @ [Print (verified_at ''Spell'' sub address), Run ?call,
                     Print (''Spell DssAction address: '' @ ?a)]"
    from assms(1) first sub obtain t3 r3 where
      second: "verify_contract w g ''DssSpellAction'' ?a ''src/DssSpell.sol''
                 ''out/DssSpell.sol/DssSpellAction.json'' ?t2 = Some (t3, r3)"
      and y: "y = (case r3 of Inl e \<Rightarrow> (t3, Inl e)
                   | Inr u \<Rightarrow> (t3 @ [Print (verified_at ''Action'' sub ?a)], Inr ()))"
      by (auto simp: verify_both_def Let_def split: option.splits sum.splits)
    from t1 have "posts_in (api_calls g) ?t2" by simp
    from verify_contract_posts_in [OF second this] have "posts_in (api_calls g) t3" by simp
    with y show ?thesis by (cases r3) simp_all
  qed
qed

lemma script_posts_in:
  assumes "script w = Some (t, r)"
  shows "\<exists>g. posts_in (api_calls g) t \<and> chain_id g = cast_chain_id w \<and>
             spell_constructor_arguments g = (if length (argv w) = 4 then argv w ! 3 else [])"
proof -
  obtain t0 r0 where args: "load_arguments w = (t0, r0)"
    by (cases "load_arguments w")
  have t0: "posts_in A t0" for A
    using args by (auto simp: load_arguments_def Let_def split: option.splits if_splits)
  show ?thesis
  proof (cases r0)
    case (Inl e)
    with assms args have "t = t0" by (simp add: script_def)
    with t0 [of "api_calls \<lparr>api_key = [], spell_constructor_arguments =
                    (if length (argv w) = 4 then argv w ! 3 else []),
                    chain_id = cast_chain_id w, library_name = [], library_address = []\<rparr>"]
    show ?thesis by (intro exI [where x = "\<lparr>api_key = [], spell_constructor_arguments =
                    (if length (argv w) = 4 then argv w ! 3 else []),
                    chain_id = cast_chain_id w, library_name = [], library_address = []\<rparr>"]) simp
  next
    case (Inr loaded)
    then obtain key name address ctor where
      loaded: "r0 = Inr (key, name, address, ctor)" by (cases loaded) auto
    with args have ctor: "ctor = (if length (argv w) = 4 then argv w ! 3 else [])"
      by (auto simp: load_arguments_def Let_def split: option.splits if_splits)
    obtain t1 r1 where prep: "prepare w key address ctor t0 = (t1, r1)"
      by (cases "prepare w key address ctor t0")
    have no_raise: "\<exists>g. r1 = Inr g"
      using prep
      by (auto simp: prepare_def get_library_address_def Let_def
          split: sum.splits error.splits file_state.splits option.splits)
    then obtain g where g: "r1 = Inr g" by blast
    from prepare_globals [OF prep [unfolded g]] t0 have
      facts: "chain_id g = cast_chain_id w" "spell_constructor_arguments g = ctor"
        "posts_in (api_calls g) t1"
      by simp_all
    from assms args loaded prep g have "verify_both w g name address t1 = Some (t, r)"
      by (simp add: script_def)
    from verify_both_posts_in [OF this facts(3)] facts(1,2) ctor show ?thesis by auto
  qed
qed

lemma sample_script_run: "script (replying four_replies) = Some (sample_trace, Inr ())"
  by code_simp

section \<open>Library address\<close>

text \<open>
  Against claim C7 as the specification words it (library address and library name
  both left empty): without a \<^verbatim>\<open>foundry.toml\<close> the verification request of the
  sample run carries the library name \<open>DssExecLib\<close> next to the empty address.
\<close>

theorem library_name_sent_counterexample:
  "files (replying four_replies) ''foundry.toml'' = Absent \<and>
   script (replying four_replies) = Some (sample_trace, Inr ()) \<and>
   sample_trace ! 9 = Post sample_params sample_request \<and>
   map_of sample_request ''libraryname1'' = Some (JStr ''DssExecLib'') \<and>
   map_of sample_request ''libraryaddress1'' = Some (JStr [])"
  using sample_script_run
  by (simp add: replying_def sample_world_def sample_trace_def sample_request_def
      request_data_def sample_globals_def)

text \<open>
  Claim C7, amended. Whenever the library address cannot be resolved (no
  \<^verbatim>\<open>foundry.toml\<close>, a file that cannot be read, or a file without the pattern),
  \<^verbatim>\<open>get_library_address\<close> raises \<^verbatim>\<open>ValueError\<close>, the script prints its message
  and a warning and goes on, and every verification request built afterwards has
  an empty library address; the library name stays \<open>DssExecLib\<close>.
\<close>

theorem library_failure_is_not_fatal:
  assumes "files w ''foundry.toml'' = Absent \<or>
           (\<exists>m. files w ''foundry.toml'' = Unreadable m) \<or>
           (\<exists>config. files w ''foundry.toml'' = Text config \<and> re_search config = None)"
  shows "\<exists>m g. get_library_address w = Inl (ValueError m) \<and>
           prepare w key address args t =
             (t @ [Print (''DssSpell address: '' @ address),
                   Run [''forge'', ''flatten'', ''src/DssSpell.sol'', ''--output'',
                        flatten_output_path],
                   Print ''Obtaining chain ID... '',
                   Run [''cast'', ''chain-id''],
                   Print (''CHAIN_ID: '' @ cast_chain_id w),
                   Print m,
                   Print ''WARNING: Assuming this contract uses no libraries''],
              Inr g) \<and>
           g = \<lparr>api_key = key, spell_constructor_arguments = args,
                chain_id = cast_chain_id w, library_name = ''DssExecLib'',
                library_address = []\<rparr> \<and>
           (\<forall>name a md code.
              map_of (request_data g name a md code) ''libraryaddress1'' = Some (JStr []) \<and>
              map_of (request_data g name a md code) ''libraryname1'' =
                Some (JStr ''DssExecLib''))"
proof -
  from assms obtain m where m: "get_library_address w = Inl (ValueError m)"
    by (auto simp: get_library_address_def)
  let ?g = "\<lparr>api_key = key, spell_constructor_arguments = args, chain_id = cast_chain_id w,
             library_name = ''DssExecLib'', library_address = []\<rparr>"
  have "prepare w key address args t =
          (t @ [Print (''DssSpell address: '' @ address),
                Run [''forge'', ''flatten'', ''src/DssSpell.sol'', ''--output'',
                     flatten_output_path],
                Print ''Obtaining chain ID... '',
                Run [''cast'', ''chain-id''],
                Print (''CHAIN_ID: '' @ cast_chain_id w),
                Print m,
                Print ''WARNING: Assuming this contract uses no libraries''],
           Inr ?g)"
    by (simp add: prepare_def m Let_def)
  moreover have "map_of (request_data ?g name a md code) ''libraryaddress1'' = Some (JStr [])"
    "map_of (request_data ?g name a md code) ''libraryname1'' = Some (JStr ''DssExecLib'')"
    for name a md code
    by (simp_all add: request_data_def)
  ultimately show ?thesis using m by blast
qed

theorem library_failure_is_not_fatal_witness:
  "snd (prepare (replying []) ''KEY'' sample_address ''abcd'' []) = Inr sample_globals \<and>
   snd (prepare (with_config (Unreadable ''Permission denied'') (replying []))
          ''KEY'' sample_address ''abcd'' []) = Inr sample_globals \<and>
   snd (prepare (with_config (Text ''[profile.default]'') (replying []))
          ''KEY'' sample_address ''abcd'' []) = Inr sample_globals \<and>
   map_of sample_request ''libraryaddress1'' = Some (JStr []) \<and>
   map_of sample_request ''libraryname1'' = Some (JStr ''DssExecLib'')"
proof -
  let ?w2 = "with_config (Unreadable ''Permission denied'') (replying [])"
  let ?w3 = "with_config (Text ''[profile.default]'') (replying [])"
  have a: "files (replying []) ''foundry.toml'' = Absent \<or>
           (\<exists>m. files (replying []) ''foundry.toml'' = Unreadable m) \<or>
           (\<exists>config. files (replying []) ''foundry.toml'' = Text config \<and>
              re_search config = None)"
    by (simp add: replying_def sample_world_def)
  have b: "files ?w2 ''foundry.toml'' = Absent \<or>
           (\<exists>m. files ?w2 ''foundry.toml'' = Unreadable m) \<or>
           (\<exists>config. files ?w2 ''foundry.toml'' = Text config \<and> re_search config = None)"
    by (simp add: with_config_def)
  have "re_search ''[profile.default]'' = None"
    by (simp add: match_here_def)
  then have c: "files ?w3 ''foundry.toml'' = Absent \<or>
           (\<exists>m. files ?w3 ''foundry.toml'' = Unreadable m) \<or>
           (\<exists>config. files ?w3 ''foundry.toml'' = Text config \<and> re_search config = None)"
    by (simp add: with_config_def)
  have chain: "cast_chain_id (replying []) = ''11155111''" "cast_chain_id ?w2 = ''11155111''"
    "cast_chain_id ?w3 = ''11155111''"
    by (simp_all add: cast_chain_id_def with_config_def replying_def sample_world_def)
  from library_failure_is_not_fatal [OF a, of "''KEY''" sample_address "''abcd''" "[]"]
       library_failure_is_not_fatal [OF b, of "''KEY''" sample_address "''abcd''" "[]"]
       library_failure_is_not_fatal [OF c, of "''KEY''" sample_address "''abcd''" "[]"]
  show ?thesis
    by (auto simp: chain sample_globals_def sample_request_def request_data_def)
qed

text \<open>The other way round, a configured library is found and returned as it is written.\<close>

lemma library_address_found:
  "get_library_address
     (with_config
        (Text ''libraries = [lib/DssExecLib.sol:DssExecLib:0x8De6DDbCd5053d32292AAA0D2105A32d108484a6]'')
        (replying [])) =
   Inr ''0x8De6DDbCd5053d32292AAA0D2105A32d108484a6''"
  by (simp add: get_library_address_def with_config_def match_here_def is_hex_def)

section \<open>Chain id\<close>

text \<open>
  Claim C8. The chain-id query prints one line. For every output that ends with a
  newline (and for the empty output, which has none to strip), the chain id of the
  script is that output without its trailing newline, and nothing else is removed;
  it is the only query parameter of every request built from the module-level
  variables, hence of every POST of the run.
\<close>

theorem chain_id_is_output_without_newline:
  assumes "stdout_of w [''cast'', ''chain-id''] = out"
      and "out = [] \<or> last out = CHR 0x0A"
  shows "cast_chain_id w = strip_trailing_newline out \<and>
         (\<forall>s. out = s @ [CHR 0x0A] \<longrightarrow> cast_chain_id w = s) \<and>
         (\<forall>key address args t0 t1 g.
            prepare w key address args t0 = (t1, Inr g) \<longrightarrow>
            request_params g = [(''chainid'', JStr (strip_trailing_newline out))]) \<and>
         (\<forall>t r p d.
            script w = Some (t, r) \<and> Post p d \<in> set t \<longrightarrow>
            p = [(''chainid'', JStr (strip_trailing_newline out))])"
proof -
  have id: "cast_chain_id w = strip_trailing_newline out"
    using assms by (auto simp: cast_chain_id_def strip_trailing_newline_def)
  have line: "cast_chain_id w = s" if "out = s @ [CHR 0x0A]" for s
    using that assms(1) by (simp add: cast_chain_id_def)
  have built: "request_params g = [(''chainid'', JStr (strip_trailing_newline out))]"
    if "prepare w key address args t0 = (t1, Inr g)" for key address args t0 t1 g
    using prepare_globals [OF that, of "{}"] id by (simp add: request_params_def)
  have sent: "p = [(''chainid'', JStr (strip_trailing_newline out))]"
    if run: "script w = Some (t, r)" and mem: "Post p d \<in> set t" for t r p d
  proof -
    from script_posts_in [OF run] obtain g where
      g: "posts_in (api_calls g) t" "chain_id g = cast_chain_id w" by blast
    from g(1) mem have "(p, d) \<in> api_calls g" by (simp add: posts_in_def)
    then have "p = request_params g" by (simp add: api_calls_def)
    with g(2) id show ?thesis by (simp add: request_params_def)
  qed
  from id line built sent show ?thesis by blast
qed

theorem chain_id_is_output_without_newline_witness:
  "cast_chain_id (replying four_replies) = ''11155111'' \<and>
   script (replying four_replies) = Some (sample_trace, Inr ()) \<and>
   sample_trace ! 9 = Post [(''chainid'', JStr ''11155111'')] sample_request \<and>
   sample_trace ! 12 = Post [(''chainid'', JStr ''11155111'')] sample_check \<and>
   sample_trace ! 17 = Post [(''chainid'', JStr ''11155111'')] action_request \<and>
   sample_trace ! 20 = Post [(''chainid'', JStr ''11155111'')] sample_check \<and>
   cast_chain_id (with_chain_id_output [] (replying four_replies)) = []"
proof -
  let ?w = "replying four_replies"
  let ?v = "with_chain_id_output [] (replying four_replies)"
  have out: "stdout_of ?w [''cast'', ''chain-id''] = ''11155111'' @ [CHR 0x0A]"
    by (simp add: replying_def sample_world_def)
  have nl: "''11155111'' @ [CHR 0x0A] = [] \<or> last (''11155111'' @ [CHR 0x0A]) = CHR 0x0A"
    by simp
  have none: "stdout_of ?v [''cast'', ''chain-id''] = []"
    by (simp add: with_chain_id_output_def)
  have nl': "([]::string) = [] \<or> last ([]::string) = CHR 0x0A"
    by simp
  have at: "sample_trace ! 9 = Post sample_params sample_request"
    "sample_trace ! 12 = Post sample_params sample_check"
    "sample_trace ! 17 = Post sample_params action_request"
    "sample_trace ! 20 = Post sample_params sample_check"
    by (simp_all add: sample_trace_def)
  have mem: "Post sample_params sample_request \<in> set sample_trace"
    by (simp add: sample_trace_def)
  note line = chain_id_is_output_without_newline [OF out nl]
  note empty = chain_id_is_output_without_newline [OF none nl']
  from line have "cast_chain_id ?w = ''11155111''"
    by (simp add: strip_trailing_newline_def)
  moreover from line sample_script_run mem
  have "sample_params = [(''chainid'', JStr (strip_trailing_newline (''11155111'' @ [CHR 0x0A])))]"
    by blast
  then have "sample_params = [(''chainid'', JStr ''11155111'')]"
    by (simp add: strip_trailing_newline_def)
  moreover from empty have "cast_chain_id ?v = []"
    by (simp add: strip_trailing_newline_def)
  ultimately show ?thesis using sample_script_run at by simp
qed

section \<open>Address syntax\<close>

text \<open>
  Against claim C9 as the specification words it (the address must look like
  hexadecimal): an address of 42 characters that is not hexadecimal is submitted
  for verification like any other.
\<close>

theorem non_hex_address_accepted_counterexample:
  "length odd_address = 42 \<and> \<not> hex_address odd_address \<and>
   observed (script (sample_world [''DssSpell'', odd_address, ''abcd''] four_replies)) =
     Some ([Run [''forge'', ''flatten'', ''src/DssSpell.sol'', ''--output'', ''out/flat.sol''],
            Run [''cast'', ''chain-id''],
            Post sample_params
              (request_data sample_globals ''DssSpell'' odd_address sample_metadata sample_code),
            Post sample_params sample_check,
            Run [''cast'', ''call'', odd_address, ''action()(address)''],
            Post sample_params action_request,
            Post sample_params sample_check],
           Inr ())"
  by code_simp

text \<open>
  Claim C9, amended. The argument loader checks the length of the address argument
  and nothing else about it. With both credentials set and two or three arguments
  given, an address that is not 42 characters long makes the script exit at once,
  and every address of 42 characters, hexadecimal or not, passes: the script goes
  on to verify the contract at that address.
\<close>

theorem address_checked_for_length_only:
  assumes "environ w ''ETHERSCAN_API_KEY'' = Some key"
      and "environ w ''ETH_RPC_URL'' = Some rpc"
      and "length (argv w) \<in> {3, 4}"
  shows "(length (argv w ! 2) \<noteq> 42 \<longrightarrow>
          script w =
            Some ([Print (''Attempting to verify contract '' @ argv w ! 1 @ '' at address '' @
                          argv w ! 2 @ ''...'')],
                  Inl (SystemExit (Some ''malformed address'')))) \<and>
         (length (argv w ! 2) = 42 \<longrightarrow>
          (\<exists>t g. prepare w key (argv w ! 2) (if length (argv w) = 4 then argv w ! 3 else [])
                    [Print (''Attempting to verify contract '' @ argv w ! 1 @
                            '' at address '' @ argv w ! 2 @ ''...'')] = (t, Inr g) \<and>
                  script w = verify_both w g (argv w ! 1) (argv w ! 2) t))"
proof (intro conjI impI)
  assume "length (argv w ! 2) \<noteq> 42"
  with assms show "script w =
      Some ([Print (''Attempting to verify contract '' @ argv w ! 1 @ '' at address '' @
                    argv w ! 2 @ ''...'')],
            Inl (SystemExit (Some ''malformed address'')))"
    by (simp add: script_def load_arguments_def Let_def)
next
  assume len: "length (argv w ! 2) = 42"
  let ?t0 = "[Print (''Attempting to verify contract '' @ argv w ! 1 @ '' at address '' @
                     argv w ! 2 @ ''...'')]"
  let ?args = "if length (argv w) = 4 then argv w ! 3 else []"
  have loaded: "load_arguments w = (?t0, Inr (key, argv w ! 1, argv w ! 2, ?args))"
    using assms len by (simp add: load_arguments_def Let_def)
  obtain t r where prep: "prepare w key (argv w ! 2) ?args ?t0 = (t, r)"
    by (cases "prepare w key (argv w ! 2) ?args ?t0")
  then obtain g where g: "r = Inr g"
    by (auto simp: prepare_def get_library_address_def Let_def
        split: sum.splits error.splits file_state.splits option.splits)
  have "script w = verify_both w g (argv w ! 1) (argv w ! 2) t"
    using prep g by (simp add: script_def loaded)
  with prep g show "\<exists>t g. prepare w key (argv w ! 2) ?args ?t0 = (t, Inr g) \<and>
      script w = verify_both w g (argv w ! 1) (argv w ! 2) t"
    by blast
qed

theorem address_checked_for_length_only_witness:
  "script (sample_world [''DssSpell'', ''0xabc'', ''abcd''] four_replies) =
     Some ([Print ''Attempting to verify contract DssSpell at address 0xabc...''],
           Inl (SystemExit (Some ''malformed address''))) \<and>
   (\<exists>t g. prepare (sample_world [''DssSpell'', odd_address, ''abcd''] four_replies) ''KEY''
            odd_address ''abcd''
            [Print ''Attempting to verify contract DssSpell at address not-a-hexadecimal-address-but-42-chars-xyz...''] =
            (t, Inr g) \<and>
          script (sample_world [''DssSpell'', odd_address, ''abcd''] four_replies) =
            verify_both (sample_world [''DssSpell'', odd_address, ''abcd''] four_replies) g
              ''DssSpell'' odd_address t)"
proof -
  let ?w = "sample_world [''DssSpell'', odd_address, ''abcd''] four_replies"
  let ?v = "sample_world [''DssSpell'', ''0xabc'', ''abcd''] four_replies"
  have a: "environ ?w ''ETHERSCAN_API_KEY'' = Some ''KEY''"
    and b: "environ ?w ''ETH_RPC_URL'' = Some ''http://localhost:8545''"
    and c: "length (argv ?w) \<in> {3, 4}"
    and d: "length (argv ?w ! 2) = 42"
    by (simp_all add: sample_world_def odd_address_def)
  have a': "environ ?v ''ETHERSCAN_API_KEY'' = Some ''KEY''"
    and b': "environ ?v ''ETH_RPC_URL'' = Some ''http://localhost:8545''"
    and c': "length (argv ?v) \<in> {3, 4}"
    and d': "length (argv ?v ! 2) \<noteq> 42"
    by (simp_all add: sample_world_def)
  from address_checked_for_length_only [OF a b c] d
       address_checked_for_length_only [OF a' b' c'] d'
  show ?thesis
    by (simp add: sample_world_def odd_address_def)
qed

section \<open>Constructor arguments\<close>

text \<open>
  Claim C10. When the optional third argument is given, every verification request
  of a run that ends carries it unchanged in its \<open>constructorArguements\<close> field:
  the request for the spell and the request for the action contract alike.
\<close>

theorem constructor_arguments_in_every_request:
  assumes "script w = Some (t, r)"
      and "length (argv w) = 4"
      and "Post p d \<in> set t"
      and "map_of d ''action'' = Some (JStr ''verifysourcecode'')"
  shows "map_of d ''constructorArguements'' = Some (JStr (argv w ! 3))"
proof -
  from script_posts_in [OF assms(1)] assms(2) obtain g where
    g: "posts_in (api_calls g) t" "spell_constructor_arguments g = argv w ! 3" by auto
  from g(1) assms(3) have "(p, d) \<in> api_calls g" by (simp add: posts_in_def)
  then consider name address m code where "d = request_data g name address m code"
    | guid where "d = check_data g guid"
    by (auto simp: api_calls_def)
  then show ?thesis
  proof cases
    case 1
    with g(2) show ?thesis by (simp add: request_data_def)
  next
    case 2
    with assms(4) show ?thesis by (simp add: check_data_def)
  qed
qed

theorem constructor_arguments_in_every_request_witness:
  "script (replying four_replies) = Some (sample_trace, Inr ()) \<and>
   argv (replying four_replies) ! 3 = ''abcd'' \<and>
   sample_trace ! 9 = Post sample_params sample_request \<and>
   sample_trace ! 17 = Post sample_params action_request \<and>
   map_of sample_request ''contractName'' = Some (JStr ''DssSpell'') \<and>
   map_of action_request ''contractName'' = Some (JStr ''DssSpellAction'') \<and>
   map_of sample_request ''constructorArguements'' = Some (JStr ''abcd'') \<and>
   map_of action_request ''constructorArguements'' = Some (JStr ''abcd'')"
proof -
  let ?w = "replying four_replies"
  have len: "length (argv ?w) = 4" and arg: "argv ?w ! 3 = ''abcd''"
    by (simp_all add: replying_def sample_world_def)
  have at: "sample_trace ! 9 = Post sample_params sample_request"
    "sample_trace ! 17 = Post sample_params action_request"
    by (simp_all add: sample_trace_def)
  have mem: "Post sample_params sample_request \<in> set sample_trace"
    "Post sample_params action_request \<in> set sample_trace"
    by (simp_all add: sample_trace_def)
  have act: "map_of sample_request ''action'' = Some (JStr ''verifysourcecode'')"
    "map_of action_request ''action'' = Some (JStr ''verifysourcecode'')"
    by (simp_all add: sample_request_def action_request_def request_data_def action_def)
  have names: "map_of sample_request ''contractName'' = Some (JStr ''DssSpell'')"
    "map_of action_request ''contractName'' = Some (JStr ''DssSpellAction'')"
    by (simp_all add: sample_request_def action_request_def request_data_def)
  from constructor_arguments_in_every_request [OF sample_script_run len mem(1) act(1)]
       constructor_arguments_in_every_request [OF sample_script_run len mem(2) act(2)]
       sample_script_run arg at names
  show ?thesis by simp
qed

end
